theory Spec2Isabelle
  imports Complex_Main
begin

section \<open>Go library functions used by the sources\<close>

text \<open>
  \<^verbatim>\<open>strings.Trim(s, "/")\<close> removes every leading and every trailing slash;
  \<^verbatim>\<open>strings.Split(s, "/")\<close> cuts \<open>s\<close> at every slash and returns one more
  piece than there are slashes (so the empty string gives one empty piece).
\<close>

definition Trim :: "string \<Rightarrow> char \<Rightarrow> string" where
  "Trim s c = rev (dropWhile (\<lambda>x. x = c) (rev (dropWhile (\<lambda>x. x = c) s)))"

fun Split :: "string \<Rightarrow> char \<Rightarrow> string list" where
  "Split [] c = [[]]"
| "Split (x # xs) c =
     (if x = c then [] # Split xs c
      else (case Split xs c of
              [] \<Rightarrow> [[x]]
            | w # ws \<Rightarrow> (x # w) # ws))"

section \<open>Requests, responses and shard clients\<close>

text \<open>The errors the modelled functions return.\<close>

datatype error =
    NoShardForKey string
  | NoClusterForShard string string
  | ShardNotDefined string
  | IndexOutOfRange
  | UnsupportedMethod string
  | FailedToExtractBucketKey
  | FailedToExtractAccessKey
  | ClusterNameNotPresent
  | ReqIdNotPresent
  | BadResponse int
  | ErrSyntax string
  | ErrRange string
  | MalformedObjectPath string
  | CouldNotDetermineVersion string string error
  | FailedToResolveSecretKey string error
  | FailedToResolveRing error
  | OtherError string

text \<open>
  The fields of \<^verbatim>\<open>http.Request\<close> the sources read. \<open>Header\<close> is Go's
  \<^verbatim>\<open>map[string][]string\<close>; \<open>Query\<close> is the parsed query string
  (\<^verbatim>\<open>URL.Query()\<close>); \<open>GetBody\<close> tells what calling the function field
  \<^verbatim>\<open>req.GetBody\<close> does: the field is nil, or the call returns an error, or it returns
  a fresh body; \<open>Body\<close> is what \<^verbatim>\<open>ioutil.ReadAll(req.Body)\<close> returns;
  \<open>ctxClusterName\<close> and \<open>ctxReqID\<close> are the string values the request context holds
  under \<^verbatim>\<open>ClusterName\<close> and \<^verbatim>\<open>log.ContextreqIDKey\<close>, if any.
\<close>

datatype getBody = GetBodyNil | GetBodyFails error | GetBodyReturns

record request =
  Method :: string
  Path :: string
  Query :: "(string \<times> string) list"
  Header :: "string \<rightharpoonup> string list"
  GetBody :: getBody
  Body :: "error + string"
  ctxClusterName :: "string option"
  ctxReqID :: "string option"

record response =
  StatusCode :: int
  RespHeader :: "string \<rightharpoonup> string list"

text \<open>
  How a Go call of type \<^verbatim>\<open>(*http.Response, error)\<close> ends: it returns a response and
  an error, either of which may be nil, or it panics (\<open>panicked\<close>, and then nothing is
  returned).
\<close>

record outcome =
  resp :: "response option"
  err :: "error option"
  panicked :: bool

definition panic :: outcome where
  "panic = \<lparr>resp = None, err = None, panicked = True\<rparr>"

definition MethodGet :: string where "MethodGet = ''GET''"
definition MethodPut :: string where "MethodPut = ''PUT''"
definition MethodPost :: string where "MethodPost = ''POST''"
definition MethodDelete :: string where "MethodDelete = ''DELETE''"

definition noTimeoutRegressionHeader :: string where
  "noTimeoutRegressionHeader = ''X-Akubra-No-Regression-On-Failure''"

section \<open>The shards ring (package sharding)\<close>

text \<open>
  A backend of a shard and a \<^verbatim>\<open>storages.NamedShardClient\<close>. Go compares shard clients
  by identity, so the client carries its address \<open>addr\<close>. \<open>RoundTrip\<close> is the client's
  own method: its answer may change from call to call, so it also takes the number of
  round trips the request has made before.
\<close>

record backend =
  BackendName :: string
  Endpoint :: string

record NamedShardClient =
  Name :: string
  Backends :: "backend list"
  addr :: nat
  RoundTrip :: "nat \<Rightarrow> request \<Rightarrow> outcome"

text \<open>
  \<^verbatim>\<open>ShardsRing\<close>. \<open>ring\<close> is \<^verbatim>\<open>hashring.GetNode\<close> of the consistent-hash ring
  (a library outside the repository): the node name for a key, if the ring has one.
  The ring's \<^verbatim>\<open>ringProps\<close> are read by none of the functions below and are left out.
  The Go field \<^verbatim>\<open>allClustersRoundTripper\<close> is one object, which \<^verbatim>\<open>RegionRing\<close> gets
  from \<^verbatim>\<open>storages.MergeShards\<close>; it is represented by two fields: what a round trip
  through it returns (\<open>allClustersRoundTripper\<close>) and the shards that were merged into it
  (\<open>mergedShards\<close>).
\<close>

record ShardsRing =
  ring :: "string \<Rightarrow> string option"
  shardClusterMap :: "string \<rightharpoonup> NamedShardClient"
  allClustersRoundTripper :: "request \<Rightarrow> outcome"
  mergedShards :: "NamedShardClient list"
  clusterRegressionMap :: "string \<rightharpoonup> NamedShardClient"
  watchdogVersionHeaderName :: string

text \<open>\<^verbatim>\<open>ShardsRing.isBucketPath\<close>.\<close>

definition isBucketPath :: "string \<Rightarrow> bool" where
  "isBucketPath path = (let trimmedPath = Trim path CHR ''/'' in
     length (Split trimmedPath CHR ''/'') = 1)"

text \<open>\<^verbatim>\<open>ShardsRing.Pick\<close>.\<close>

definition Pick :: "ShardsRing \<Rightarrow> string \<Rightarrow> error + NamedShardClient" where
  "Pick sr key =
     (case ring sr key of
        None \<Rightarrow> Inl (NoShardForKey key)
      | Some shardName \<Rightarrow>
          (case shardClusterMap sr shardName of
             None \<Rightarrow> Inl (NoClusterForShard shardName key)
           | Some shardCluster \<Rightarrow> Inr shardCluster))"

text \<open>
  \<^verbatim>\<open>ShardsRing.send\<close>: rewind the request body, then hand the request to the
  round-tripper. \<open>n\<close> counts the earlier sends of this request. Calling a nil
  \<^verbatim>\<open>req.GetBody\<close> panics; when the call returns an error no round trip is made.
\<close>

definition send :: "NamedShardClient \<Rightarrow> request \<Rightarrow> nat \<Rightarrow> outcome" where
  "send roundTripper req n =
     (case GetBody req of
        GetBodyNil \<Rightarrow> panic
      | GetBodyFails e \<Rightarrow> \<lparr>resp = None, err = Some e, panicked = False\<rparr>
      | GetBodyReturns \<Rightarrow> RoundTrip roundTripper n req)"

text \<open>
  The round trips the sends of a request make: a send on each shard of \<open>visited\<close> makes
  a round trip to it exactly when \<^verbatim>\<open>req.GetBody()\<close> returns a body.
\<close>

definition roundTrips :: "request \<Rightarrow> string list \<Rightarrow> string list" where
  "roundTrips req visited = (if GetBody req = GetBodyReturns then visited else [])"

text \<open>\<^verbatim>\<open>shouldCallRegression\<close>.\<close>

definition shouldCallRegression :: "request \<Rightarrow> outcome \<Rightarrow> bool" where
  "shouldCallRegression req out =
     (if err out = None \<and> resp out \<noteq> None
      then (StatusCode (the (resp out)) > 400) \<and> (StatusCode (the (resp out)) < 500)
      else if Header req noTimeoutRegressionHeader = None then True
      else False)"

text \<open>
  \<^verbatim>\<open>ShardsRing.regressionCall\<close>. The Go function calls itself with the fallback shard;
  nothing in it bounds the recursion, so the model is a partial function: \<open>None\<close> means
  the call never ends. \<open>sent\<close> lists the names of the shards the walk has visited so
  far, that is the shards on which \<^verbatim>\<open>regressionCall\<close> has called \<^verbatim>\<open>send\<close> (whether
  a send makes a round trip is up to \<open>send\<close>, see \<open>roundTrips\<close>); the result extends
  it, followed by what the Go function returns (the answering shard's name and its
  outcome). A send that panics ends the walk with the panic as outcome. Closing the
  body of a discarded response changes nothing the model records.
\<close>

partial_function (option) regressionCall ::
  "ShardsRing \<Rightarrow> NamedShardClient \<Rightarrow> string \<Rightarrow> request \<Rightarrow> string list
     \<Rightarrow> (string list \<times> string \<times> outcome) option" where
  "regressionCall sr cl origClusterName req sent =
     (let out = send cl req (length sent); sent' = sent @ [Name cl] in
      if panicked out then Some (sent', Name cl, out)
      else if shouldCallRegression req out
      then (case clusterRegressionMap sr (Name cl) of
              Some rcl \<Rightarrow>
                if Name rcl \<noteq> origClusterName
                then regressionCall sr rcl origClusterName req sent'
                else Some (sent', Name cl, out)
            | None \<Rightarrow> Some (sent', Name cl, out))
      else Some (sent', Name cl, out))"

text \<open>
  \<^verbatim>\<open>ShardsRing.DoRequest\<close>. \<open>dispatched\<close> lists the round trips made with the
  request, in order: to the all-clusters round-tripper or to a shard; \<open>liftsVersion\<close>
  tells whether the response's version header is put into the request context for read
  repair.
\<close>

datatype dispatch = ToAllClusters | ToShard string

record doResult =
  dispatched :: "dispatch list"
  result :: outcome
  liftsVersion :: bool

definition DoRequest :: "ShardsRing \<Rightarrow> request \<Rightarrow> doResult option" where
  "DoRequest sr req =
     (if Method req = MethodDelete \<or> isBucketPath (Path req)
      then Some \<lparr>dispatched = [ToAllClusters], result = allClustersRoundTripper sr req,
                 liftsVersion = False\<rparr>
      else (case Pick sr (Path req) of
              Inl e \<Rightarrow> Some \<lparr>dispatched = [],
                              result = \<lparr>resp = None, err = Some e, panicked = False\<rparr>,
                              liftsVersion = False\<rparr>
            | Inr cl \<Rightarrow>
                (case regressionCall sr cl (Name cl) req [] of
                   None \<Rightarrow> None
                 | Some (sent, successClusterName, out) \<Rightarrow>
                     Some \<lparr>dispatched = map ToShard (roundTrips req sent), result = out,
                           liftsVersion = (\<not> panicked out \<and> err out = None
                                           \<and> Method req = MethodGet
                                           \<and> successClusterName \<noteq> Name cl)\<rparr>)))"

section \<open>The ring factory (internal/akubra/sharding/sharding.go)\<close>

text \<open>
  \<^verbatim>\<open>storages.GetShard\<close> is outside the sources: the cluster storage is taken as a map
  from shard names to clients, a missing name being its error.
\<close>

definition GetShard :: "(string \<rightharpoonup> NamedShardClient) \<Rightarrow> string \<Rightarrow> error + NamedShardClient" where
  "GetShard storages name =
     (case storages name of None \<Rightarrow> Inl (ShardNotDefined name) | Some c \<Rightarrow> Inr c)"

text \<open>The nil client Go is left with when \<^verbatim>\<open>GetShard\<close> fails.\<close>

definition nilShardClient :: NamedShardClient where
  "nilShardClient = \<lparr>Name = [], Backends = [], addr = 0,
     RoundTrip = (\<lambda>n req. panic)\<rparr>"

text \<open>
  \<^verbatim>\<open>RingFactory.createRegressionMap\<close>; \<open>shards\<close> are the shard names of
  \<^verbatim>\<open>config.Shards\<close>, in order. The loop is \<open>regressionLoop\<close>; indexing the last
  element of an empty list panics.
\<close>

fun regressionLoop ::
  "(string \<rightharpoonup> NamedShardClient) \<Rightarrow> string list \<Rightarrow> NamedShardClient
     \<Rightarrow> (string \<rightharpoonup> NamedShardClient) \<Rightarrow> error + (string \<rightharpoonup> NamedShardClient)" where
  "regressionLoop storages [] previousCluster regressionMap = Inr regressionMap"
| "regressionLoop storages (cluster # rest) previousCluster regressionMap =
     (case GetShard storages cluster of
        Inl e \<Rightarrow> Inl e
      | Inr clientCluster \<Rightarrow>
          regressionLoop storages rest clientCluster (regressionMap(cluster \<mapsto> previousCluster)))"

definition createRegressionMap ::
  "(string \<rightharpoonup> NamedShardClient) \<Rightarrow> string list \<Rightarrow> error + (string \<rightharpoonup> NamedShardClient)" where
  "createRegressionMap storages shards =
     (if shards = [] then Inl IndexOutOfRange
      else let lastClusterName = last shards;
               previousCluster = (case GetShard storages lastClusterName of
                                    Inl e \<Rightarrow> nilShardClient
                                  | Inr c \<Rightarrow> c)
           in regressionLoop storages shards previousCluster Map.empty)"












section \<open>Consistency records (watchdog/watchdog.go)\<close>

text \<open>Times and durations are counted in nanoseconds, as \<^verbatim>\<open>time.Duration\<close> is.\<close>

definition Minute :: int where "Minute = 60 * 1000000000"

definition fiveMinutes :: int where "fiveMinutes = Minute * 5"

datatype Method = PUT | DELETE

text \<open>\<^verbatim>\<open>ConsistencyRecord\<close> of watchdog.go (without its mutex); its field \<^verbatim>\<open>method\<close> is
  \<open>method'\<close> here.\<close>

record ConsistencyRecord =
  objectID :: string
  method' :: Method
  cluster :: string
  accessKey :: string
  requestId :: string
  ExecutionDate :: int
  isReflectedOnBackends :: bool

text \<open>
  \<^verbatim>\<open>utils.ExtractBucketAndKey\<close> and \<^verbatim>\<open>utils.ExtractAccessKey\<close> are outside the sources
  and are taken as parameters.
\<close>

record utils =
  ExtractBucketAndKey :: "string \<Rightarrow> string \<times> string"
  ExtractAccessKey :: "request \<Rightarrow> string"

text \<open>\<^verbatim>\<open>CreateRecordFor\<close>; \<open>now\<close> is what \<^verbatim>\<open>time.Now()\<close> returns.\<close>

definition CreateRecordFor :: "utils \<Rightarrow> int \<Rightarrow> request \<Rightarrow> error + ConsistencyRecord" where
  "CreateRecordFor u now request =
     (if Method request \<noteq> ''PUT'' \<and> Method request \<noteq> ''DELETE''
      then Inl (UnsupportedMethod (Method request))
      else
        let requestMethod = (if Method request = ''PUT'' then PUT else DELETE);
            execDate = now + fiveMinutes;
            (bucket, key) = ExtractBucketAndKey u (Path request)
        in if bucket = [] \<or> key = [] then Inl FailedToExtractBucketKey
           else let accessKey' = ExtractAccessKey u request
                in if accessKey' = [] then Inl FailedToExtractAccessKey
                   else (case ctxClusterName request of
                           None \<Rightarrow> Inl ClusterNameNotPresent
                         | Some clusterName \<Rightarrow>
                             (case ctxReqID request of
                                None \<Rightarrow> Inl ReqIdNotPresent
                              | Some requestId' \<Rightarrow>
                                  Inr \<lparr>objectID = bucket @ ''/'' @ key,
                                       method' = requestMethod,
                                       cluster = clusterName,
                                       accessKey = accessKey',
                                       requestId = requestId',
                                       ExecutionDate = execDate,
                                       isReflectedOnBackends = True\<rparr>)))"

text \<open>
  Modelled from the spec: the scan of the consistency log is not in the sources. The
  spec says the reconciler skips records whose \<open>executionDate\<close> is in the future
  (``skipping entries whose \<open>executionDate > now\<close>'').
\<close>

definition eligibleForReconciliation :: "int \<Rightarrow> ConsistencyRecord \<Rightarrow> bool" where
  "eligibleForReconciliation t record = (\<not> ExecutionDate record > t)"

section \<open>The version fetcher (package filter)\<close>

text \<open>
  \<^verbatim>\<open>strconv.ParseInt(s, 10, 64)\<close>: an optional sign, then one or more decimal digits;
  a value outside the 64-bit range is an error.
\<close>

definition isDigit :: "char \<Rightarrow> bool" where
  "isDigit c = (c \<in> set ''0123456789'')"

definition digitsValue :: "string \<Rightarrow> nat" where
  "digitsValue ds = foldl (\<lambda>n c. 10 * n + (of_char c - 48)) 0 ds"

definition ParseInt :: "string \<Rightarrow> error + int" where
  "ParseInt s =
     (if s = [] then Inl (ErrSyntax s)
      else
        let neg = (hd s = CHR ''-'');
            ds = (if hd s = CHR ''+'' \<or> hd s = CHR ''-'' then tl s else s)
        in if ds = [] \<or> \<not> list_all isDigit ds then Inl (ErrSyntax s)
           else let n = int (digitsValue ds)
                in if \<not> neg \<and> n \<ge> 2 ^ 63 then Inl (ErrRange s)
                   else if neg \<and> n > 2 ^ 63 then Inl (ErrRange s)
                   else Inr (if neg then - n else n))"

text \<open>
  \<^verbatim>\<open>textproto.CanonicalMIMEHeaderKey\<close> of Go's standard library: in a key made of
  header field bytes only (letters, digits and the marks of \<open>fieldMarks\<close>) the first
  letter and every letter after a hyphen are put in upper case and the other letters in
  lower case; a key with any other byte is returned as it is.
\<close>

definition isLower :: "char \<Rightarrow> bool" where
  "isLower c = (c \<in> set ''abcdefghijklmnopqrstuvwxyz'')"

definition isUpper :: "char \<Rightarrow> bool" where
  "isUpper c = (c \<in> set ''ABCDEFGHIJKLMNOPQRSTUVWXYZ'')"

definition toUpper :: "char \<Rightarrow> char" where
  "toUpper c = (case map_of (zip ''abcdefghijklmnopqrstuvwxyz'' ''ABCDEFGHIJKLMNOPQRSTUVWXYZ'') c of
                  Some u \<Rightarrow> u | None \<Rightarrow> c)"

definition toLower :: "char \<Rightarrow> char" where
  "toLower c = (case map_of (zip ''ABCDEFGHIJKLMNOPQRSTUVWXYZ'' ''abcdefghijklmnopqrstuvwxyz'') c of
                  Some l \<Rightarrow> l | None \<Rightarrow> c)"

definition fieldMarks :: string where
  "fieldMarks = [CHR ''!'', CHR ''#'', CHR ''$'', CHR ''%'', CHR ''&'', CHR 0x27, CHR ''*'',
     CHR ''+'', CHR ''-'', CHR ''.'', CHR ''^'', CHR ''_'', CHR 0x60, CHR ''|'', CHR ''~'']"

definition validHeaderFieldByte :: "char \<Rightarrow> bool" where
  "validHeaderFieldByte c = (isLower c \<or> isUpper c \<or> isDigit c \<or> c \<in> set fieldMarks)"

fun canonicalLoop :: "bool \<Rightarrow> string \<Rightarrow> string" where
  "canonicalLoop upper [] = []"
| "canonicalLoop upper (c # rest) =
     (let c' = (if upper \<and> isLower c then toUpper c
                else if \<not> upper \<and> isUpper c then toLower c
                else c)
      in c' # canonicalLoop (c' = CHR ''-'') rest)"

definition CanonicalMIMEHeaderKey :: "string \<Rightarrow> string" where
  "CanonicalMIMEHeaderKey s =
     (if list_all validHeaderFieldByte s then canonicalLoop True s else s)"

text \<open>
  \<^verbatim>\<open>http.Header.Get\<close>: the first value stored under the canonical form of the key, or
  the empty string.
\<close>

definition HeaderGet :: "(string \<rightharpoonup> string list) \<Rightarrow> string \<Rightarrow> string" where
  "HeaderGet h key = (case h (CanonicalMIMEHeaderKey key) of Some (v # vs) \<Rightarrow> v | _ \<Rightarrow> [])"

record StorageState =
  storageEndpoint :: string
  version :: int
  objectNotFound :: bool

text \<open>
  What \<^verbatim>\<open>bucket.Head(key, nil)\<close> of the S3 client library returns: an error with its
  text (the library reports a HEAD answered 404 as the error \<^verbatim>\<open>404 Not Found\<close>), or a
  response.
\<close>

datatype head_result = HeadFailed string | HeadAnswered response

text \<open>
  \<^verbatim>\<open>S3VersionFetcher.Fetch\<close>, given the endpoint of the S3 client and the result of its
  HEAD request.
\<close>

definition Fetch :: "string \<Rightarrow> string \<Rightarrow> head_result \<Rightarrow> error + StorageState" where
  "Fetch VersionHeaderName S3Endpoint head =
     (case head of
        HeadFailed msg \<Rightarrow>
          if msg = ''404 Not Found''
          then Inr \<lparr>storageEndpoint = S3Endpoint, version = - 1, objectNotFound = True\<rparr>
          else Inl (OtherError msg)
      | HeadAnswered headResponse \<Rightarrow>
          if StatusCode headResponse \<noteq> 200 then Inl (BadResponse (StatusCode headResponse))
          else (case ParseInt (HeaderGet (RespHeader headResponse) VersionHeaderName) of
                  Inl e \<Rightarrow> Inl e
                | Inr objectVersion \<Rightarrow>
                    Inr \<lparr>storageEndpoint = S3Endpoint, version = objectVersion,
                         objectNotFound = False\<rparr>))"

section \<open>The WAL filter (package filter)\<close>

text \<open>
  The consistency record of internal/akubra/watchdog, which the filter reads: unlike the
  record of watchdog.go it carries the object's version. Its field \<^verbatim>\<open>Method\<close> is
  \<open>Method'\<close> here.
\<close>

record ConsistencyRecord' =
  ObjectID :: string
  Domain :: string
  Method' :: Method
  AccessKey :: string
  RequestID :: string
  ObjectVersion :: int

text \<open>
  A \<^verbatim>\<open>model.Hook\<close> is a function; the filter only passes hooks on and replaces them by
  its \<^verbatim>\<open>noopHook\<close>, so a hook is either that one or another one, told apart by a number.
\<close>

datatype Hook = noopHook | OtherHook nat

record WALEntry =
  Record :: ConsistencyRecord'
  RecordProcessedHook :: Hook

text \<open>
  \<^verbatim>\<open>brimS3.MigrationAuth\<close>; the S3 client \<^verbatim>\<open>brimS3.GetS3Client\<close> makes from one is
  represented by it.
\<close>

record MigrationAuth =
  AuthAccessKey :: string
  AuthSecretKey :: string
  AuthEndpoint :: string

definition GetS3Client :: "MigrationAuth \<Rightarrow> MigrationAuth" where
  "GetS3Client clientAuth = clientAuth"

record WALTask =
  WALEntry :: WALEntry
  SourceClient :: "MigrationAuth option"
  DestinationsClients :: "MigrationAuth list"

record keys =
  access :: string
  secret :: string

record objectState =
  storagesKeys :: "string \<rightharpoonup> keys"
  storagesWithObject :: "StorageState list"
  storagesWithoutObject :: "StorageState list"

record storagesEndpoints =
  src :: string
  destinations :: "string list"
  numberOfStoragesWithoutVersionHeader :: nat

text \<open>
  \<^verbatim>\<open>ringState\<close>. \<^verbatim>\<open>determineStorages\<close> tests the destination slice against nil, so
  \<open>targetShardDstClis\<close> is an optional list: \<open>None\<close> is the nil slice, \<open>Some []\<close> an empty
  one. Of the other slices only the elements are read.
\<close>

record ringState =
  oldStoragesWithObject :: "MigrationAuth list"
  targetShardSrcCli :: "MigrationAuth option"
  targetShardDstClis :: "MigrationAuth list option"

definition noopTask :: ringState where
  "noopTask = \<lparr>oldStoragesWithObject = [], targetShardSrcCli = None, targetShardDstClis = None\<rparr>"

text \<open>
  \<^verbatim>\<open>DefaultWALFilter\<close>. The backend resolver and the version fetcher are interfaces
  implemented outside the filter; \<open>rings\<close> is the filter's cache.
\<close>

record DefaultWALFilter =
  GetShardsRing :: "string \<Rightarrow> error + ShardsRing"
  ResolveClientForBackend :: "string \<Rightarrow> string \<Rightarrow> string \<Rightarrow> error + keys"
  versionFetcher :: "MigrationAuth \<Rightarrow> string \<Rightarrow> string \<Rightarrow> error + StorageState"
  rings :: "string \<rightharpoonup> ShardsRing"

text \<open>
  \<^verbatim>\<open>checkVersions\<close>: the loop over \<^verbatim>\<open>storagesWithObject\<close>, carrying the three local
  variables in a \<open>storagesEndpoints\<close>. \<open>None\<close> is the early \<^verbatim>\<open>return nil, nil\<close>. The
  error that \<^verbatim>\<open>checkVersions\<close>, \<^verbatim>\<open>resolveVersions\<close> and \<^verbatim>\<open>prepareShardMigration\<close>
  return is nil on every path, so the model leaves it out.
\<close>

fun checkVersionsLoop ::
  "ConsistencyRecord' \<Rightarrow> StorageState list \<Rightarrow> storagesEndpoints \<Rightarrow> storagesEndpoints option" where
  "checkVersionsLoop record [] acc = Some acc"
| "checkVersionsLoop record (storage # rest) acc =
     (if version storage = - 1
      then checkVersionsLoop record rest
             (acc\<lparr>numberOfStoragesWithoutVersionHeader :=
                     (if \<not> objectNotFound storage
                      then numberOfStoragesWithoutVersionHeader acc + 1
                      else numberOfStoragesWithoutVersionHeader acc),
                   destinations := destinations acc @ [storageEndpoint storage]\<rparr>)
      else if version storage > ObjectVersion record then None
      else (case Method' record of
              PUT \<Rightarrow>
                if version storage < ObjectVersion record
                then checkVersionsLoop record rest
                       (acc\<lparr>destinations := destinations acc @ [storageEndpoint storage]\<rparr>)
                else checkVersionsLoop record rest (acc\<lparr>src := storageEndpoint storage\<rparr>)
            | DELETE \<Rightarrow>
                if \<not> objectNotFound storage
                then checkVersionsLoop record rest
                       (acc\<lparr>destinations := destinations acc @ [storageEndpoint storage]\<rparr>)
                else checkVersionsLoop record rest acc))"

definition checkVersions :: "ConsistencyRecord' \<Rightarrow> objectState \<Rightarrow> storagesEndpoints option" where
  "checkVersions record objectState =
     checkVersionsLoop record (storagesWithObject objectState)
       \<lparr>src = [], destinations = [], numberOfStoragesWithoutVersionHeader = 0\<rparr>"

text \<open>\<^verbatim>\<open>resolveVersions\<close>.\<close>

definition resolveVersions :: "ConsistencyRecord' \<Rightarrow> objectState \<Rightarrow> storagesEndpoints option" where
  "resolveVersions record objectState =
     (if Method' record = PUT \<and> length (storagesWithObject objectState) < 1 then None
      else (case checkVersions record objectState of
              None \<Rightarrow> None
            | Some storagesEndpoints \<Rightarrow>
                if numberOfStoragesWithoutVersionHeader storagesEndpoints
                     = length (storagesWithObject objectState)
                then None
                else if Method' record = PUT
                then Some (storagesEndpoints\<lparr>destinations :=
                       destinations storagesEndpoints
                         @ map storageEndpoint (storagesWithoutObject objectState)\<rparr>)
                else Some storagesEndpoints))"

text \<open>\<^verbatim>\<open>createS3Clients\<close>; a Go map gives the zero value for a missing key.\<close>

definition keysOf :: "(string \<rightharpoonup> keys) \<Rightarrow> string \<Rightarrow> keys" where
  "keysOf sKeys endpoint =
     (case sKeys endpoint of None \<Rightarrow> \<lparr>access = [], secret = []\<rparr> | Some k \<Rightarrow> k)"

definition createS3Clients :: "string list \<Rightarrow> (string \<rightharpoonup> keys) \<Rightarrow> MigrationAuth list" where
  "createS3Clients endpoints sKeys =
     map (\<lambda>endpoint. GetS3Client \<lparr>AuthAccessKey = access (keysOf sKeys endpoint),
                                   AuthSecretKey = secret (keysOf sKeys endpoint),
                                   AuthEndpoint = endpoint\<rparr>) endpoints"

text \<open>
  \<^verbatim>\<open>prepareShardMigration\<close>: the source client and the destination clients;
  \<open>(None, None)\<close> is \<^verbatim>\<open>return nil, nil, nil\<close>.
\<close>

definition prepareShardMigration ::
  "ConsistencyRecord' \<Rightarrow> objectState \<Rightarrow> MigrationAuth option \<times> MigrationAuth list option" where
  "prepareShardMigration record state =
     (case resolveVersions record state of
        None \<Rightarrow> (None, None)
      | Some storagesEndpoints \<Rightarrow>
          let srcStorages = (if src storagesEndpoints \<noteq> [] then [src storagesEndpoints] else []);
              srcClients = createS3Clients srcStorages (storagesKeys state);
              dstClients = createS3Clients (destinations storagesEndpoints) (storagesKeys state)
          in if Method' record = PUT
             then (if length srcClients = 0 then (None, None)
                   else (Some (hd srcClients), Some dstClients))
             else (None, Some dstClients))"

text \<open>\<^verbatim>\<open>getStoragesWithVersion\<close>.\<close>

fun getStoragesWithVersionLoop ::
  "int \<Rightarrow> (string \<rightharpoonup> keys) \<Rightarrow> StorageState list \<Rightarrow> MigrationAuth list \<Rightarrow> MigrationAuth list" where
  "getStoragesWithVersionLoop v ks [] acc = acc"
| "getStoragesWithVersionLoop v ks (storageWithObject # rest) acc =
     (if objectNotFound storageWithObject then getStoragesWithVersionLoop v ks rest acc
      else if version storageWithObject \<le> v
      then getStoragesWithVersionLoop v ks rest
             (acc @ [hd (createS3Clients [storageEndpoint storageWithObject] ks)])
      else getStoragesWithVersionLoop v ks rest acc)"

definition getStoragesWithVersion :: "int \<Rightarrow> objectState \<Rightarrow> MigrationAuth list" where
  "getStoragesWithVersion v state =
     getStoragesWithVersionLoop v (storagesKeys state) (storagesWithObject state) []"

text \<open>\<^verbatim>\<open>resolveStoragesKeys\<close>.\<close>

fun resolveStoragesKeysLoop ::
  "DefaultWALFilter \<Rightarrow> ConsistencyRecord' \<Rightarrow> backend list \<Rightarrow> (string \<rightharpoonup> keys)
     \<Rightarrow> error + (string \<rightharpoonup> keys)" where
  "resolveStoragesKeysLoop f record [] sKeys = Inr sKeys"
| "resolveStoragesKeysLoop f record (storageClient # rest) sKeys =
     (case ResolveClientForBackend f (BackendName storageClient) (ObjectID record)
             (AccessKey record) of
        Inl e \<Rightarrow> Inl (FailedToResolveSecretKey (BackendName storageClient) e)
      | Inr s3Client \<Rightarrow>
          resolveStoragesKeysLoop f record rest
            (sKeys(Endpoint storageClient \<mapsto> s3Client)))"

definition resolveStoragesKeys ::
  "DefaultWALFilter \<Rightarrow> ConsistencyRecord' \<Rightarrow> NamedShardClient \<Rightarrow> error + (string \<rightharpoonup> keys)" where
  "resolveStoragesKeys f record shardClient =
     resolveStoragesKeysLoop f record (Backends shardClient) Map.empty"

text \<open>\<^verbatim>\<open>checkStoragesForObjectPresence\<close>.\<close>

fun checkStoragesLoop ::
  "DefaultWALFilter \<Rightarrow> (string \<rightharpoonup> keys) \<Rightarrow> ConsistencyRecord' \<Rightarrow> string \<Rightarrow> string
     \<Rightarrow> backend list \<Rightarrow> StorageState list \<Rightarrow> StorageState list
     \<Rightarrow> error + (StorageState list \<times> StorageState list)" where
  "checkStoragesLoop f sKeys record bucket key [] withObject withoutObject =
     Inr (withObject, withoutObject)"
| "checkStoragesLoop f sKeys record bucket key (storageClient # rest)
       withObject withoutObject =
     (let clientAuth = \<lparr>AuthAccessKey = access (keysOf sKeys (Endpoint storageClient)),
                         AuthSecretKey = secret (keysOf sKeys (Endpoint storageClient)),
                         AuthEndpoint = Endpoint storageClient\<rparr>
      in case versionFetcher f clientAuth bucket key of
           Inl e \<Rightarrow> Inl (CouldNotDetermineVersion (ObjectID record) (Endpoint storageClient) e)
         | Inr objState \<Rightarrow>
             if objectNotFound objState
             then checkStoragesLoop f sKeys record bucket key rest
                    withObject (withoutObject @ [objState])
             else checkStoragesLoop f sKeys record bucket key rest
                    (withObject @ [objState]) withoutObject)"

definition checkStoragesForObjectPresence ::
  "DefaultWALFilter \<Rightarrow> (string \<rightharpoonup> keys) \<Rightarrow> ConsistencyRecord' \<Rightarrow> NamedShardClient
     \<Rightarrow> error + (StorageState list \<times> StorageState list)" where
  "checkStoragesForObjectPresence f sKeys record shardClient =
     (let bucketAndKey = Split (ObjectID record) CHR ''/''
      in if length bucketAndKey < 2 \<or> bucketAndKey ! 0 = [] \<or> bucketAndKey ! 1 = []
         then Inl (MalformedObjectPath (ObjectID record))
         else checkStoragesLoop f sKeys record (bucketAndKey ! 0) (bucketAndKey ! 1)
                (Backends shardClient) [] [])"

text \<open>\<^verbatim>\<open>fetchVersionsFromStorages\<close>.\<close>

definition fetchVersionsFromStorages ::
  "DefaultWALFilter \<Rightarrow> ConsistencyRecord' \<Rightarrow> NamedShardClient \<Rightarrow> error + objectState" where
  "fetchVersionsFromStorages f record shardClient =
     (case resolveStoragesKeys f record shardClient of
        Inl e \<Rightarrow> Inl e
      | Inr storagesKeys' \<Rightarrow>
          (case checkStoragesForObjectPresence f storagesKeys' record shardClient of
             Inl e \<Rightarrow> Inl e
           | Inr (withObject, withoutObject) \<Rightarrow>
               Inr \<lparr>storagesKeys = storagesKeys', storagesWithObject = withObject,
                    storagesWithoutObject = withoutObject\<rparr>))"

text \<open>
  \<^verbatim>\<open>determineStorages\<close>. Go iterates over the map \<^verbatim>\<open>ring.GetShards()\<close> in an order of
  its own choosing: \<open>order\<close> lists the keys in the order of this iteration. Shard clients
  are compared by identity, that is by their addresses.
\<close>

fun determineStoragesLoop ::
  "DefaultWALFilter \<Rightarrow> ConsistencyRecord' \<Rightarrow> NamedShardClient \<Rightarrow> NamedShardClient list
     \<Rightarrow> MigrationAuth option \<Rightarrow> MigrationAuth list option \<Rightarrow> MigrationAuth list
     \<Rightarrow> error + ringState" where
  "determineStoragesLoop f record pickedShard [] pickedShardSrcCli pickedShardDstClis old =
     Inr \<lparr>oldStoragesWithObject = old, targetShardSrcCli = pickedShardSrcCli,
          targetShardDstClis = pickedShardDstClis\<rparr>"
| "determineStoragesLoop f record pickedShard (shardClient # rest)
       pickedShardSrcCli pickedShardDstClis old =
     (case fetchVersionsFromStorages f record shardClient of
        Inl e \<Rightarrow> Inl e
      | Inr stateOnShard \<Rightarrow>
          if addr shardClient = addr pickedShard
          then (case prepareShardMigration record stateOnShard of
                  (srcCli, dstClis) \<Rightarrow>
                    if srcCli = None \<and> dstClis = None then Inr noopTask
                    else determineStoragesLoop f record pickedShard rest srcCli dstClis old)
          else determineStoragesLoop f record pickedShard rest
                 pickedShardSrcCli pickedShardDstClis
                 (old @ getStoragesWithVersion (ObjectVersion record) stateOnShard))"

definition determineStorages ::
  "DefaultWALFilter \<Rightarrow> string list \<Rightarrow> ConsistencyRecord' \<Rightarrow> ShardsRing \<Rightarrow> error + ringState" where
  "determineStorages f order record ring' =
     (case Pick ring' (ObjectID record) of
        Inl e \<Rightarrow> Inl e
      | Inr pickedShard \<Rightarrow>
          determineStoragesLoop f record pickedShard
            (List.map_filter (shardClusterMap ring') order) None None [])"

text \<open>\<^verbatim>\<open>determineRing\<close>: the ring of the entry's domain, and the filter with its cache updated.\<close>

definition determineRing ::
  "DefaultWALFilter \<Rightarrow> WALEntry \<Rightarrow> DefaultWALFilter \<times> (error + ShardsRing)" where
  "determineRing f entry =
     (let objDomain = Domain (Record entry)
      in case rings f objDomain of
           Some ring' \<Rightarrow> (f, Inr ring')
         | None \<Rightarrow>
             (case GetShardsRing f (Domain (Record entry)) of
                Inl e \<Rightarrow> (f, Inl (FailedToResolveRing e))
              | Inr resolvedRing \<Rightarrow>
                  (f\<lparr>rings := (rings f)(objDomain \<mapsto> resolvedRing)\<rparr>, Inr resolvedRing)))"

text \<open>\<^verbatim>\<open>clearOldStoragesTask\<close>.\<close>

definition clearOldStoragesTask ::
  "ConsistencyRecord' \<Rightarrow> Hook \<Rightarrow> MigrationAuth list \<Rightarrow> WALTask" where
  "clearOldStoragesTask record recordProcessedHook s3Clis =
     (let deleteRecord = record\<lparr>Method' := DELETE\<rparr>
      in \<lparr>WALEntry = \<lparr>Record = deleteRecord, RecordProcessedHook = recordProcessedHook\<rparr>,
          SourceClient = None,
          DestinationsClients = s3Clis\<rparr>)"

text \<open>
  What the filter does with one entry: it sends tasks to the task channel, or it
  finishes the entry by calling its hook with an error (\<^verbatim>\<open>finishWithError\<close>).
\<close>

datatype filter_output = Task WALTask | FinishedWithError WALEntry error

text \<open>A nil slice has no elements.\<close>

definition elems :: "'a list option \<Rightarrow> 'a list" where
  "elems xs = (case xs of None \<Rightarrow> [] | Some ys \<Rightarrow> ys)"

text \<open>
  The body of the loop of \<^verbatim>\<open>DefaultWALFilter.Filter\<close> for one entry; \<open>order\<close> is the
  order in which the shards of the ring are iterated for this entry.
\<close>

definition filterEntry ::
  "DefaultWALFilter \<Rightarrow> string list \<Rightarrow> WALEntry \<Rightarrow> DefaultWALFilter \<times> filter_output list" where
  "filterEntry f order walEntry =
     (case determineRing f walEntry of
        (f', Inl e) \<Rightarrow> (f', [FinishedWithError walEntry e])
      | (f', Inr ring') \<Rightarrow>
          (case determineStorages f' order (Record walEntry) ring' of
             Inl e \<Rightarrow> (f', [FinishedWithError walEntry e])
           | Inr ringState \<Rightarrow>
               let moveHook = (length (oldStoragesWithObject ringState) > 0);
                   hook = (if moveHook then RecordProcessedHook walEntry else noopHook);
                   walEntry' = (if moveHook then walEntry\<lparr>RecordProcessedHook := noopHook\<rparr>
                                else walEntry)
               in (f', [Task \<lparr>WALEntry = walEntry',
                                SourceClient = targetShardSrcCli ringState,
                                DestinationsClients = elems (targetShardDstClis ringState)\<rparr>,
                        Task (clearOldStoragesTask (Record walEntry') hook
                                (oldStoragesWithObject ringState))])))"

text \<open>
  \<^verbatim>\<open>DefaultWALFilter.Filter\<close>: the entries of the channel, each with the iteration order
  of its ring's shards, and what is sent to the task channel or finished with an error.
\<close>

fun Filter ::
  "DefaultWALFilter \<Rightarrow> (WALEntry \<times> string list) list \<Rightarrow> filter_output list" where
  "Filter f [] = []"
| "Filter f ((walEntry, order) # rest) =
     (case filterEntry f order walEntry of
        (f', outs) \<Rightarrow> outs @ Filter f' rest)"

section \<open>The consistency gate\<close>

text \<open>\<^verbatim>\<open>config.ConsistencyLevel\<close>: \<^verbatim>\<open>config.None\<close>, \<^verbatim>\<open>config.Weak\<close>, \<^verbatim>\<open>config.Strong\<close>.\<close>

datatype ConsistencyLevel = None' | Weak | Strong

text \<open>The request asks for \<^verbatim>\<open>?acl\<close>: its query has the key \<^verbatim>\<open>acl\<close>.\<close>

definition queriesACL :: "request \<Rightarrow> bool" where
  "queriesACL req = (''acl'' \<in> set (map fst (Query req)))"

text \<open>
  Modelled from the spec: \<^verbatim>\<open>ConsistentShardsRing.DoRequest\<close> and the decision it takes
  before inserting a record are not in the sources; only their tests are. The spec
  (section 4.5, step 2): ``Insert a ConsistencyRecord into C6 iff the request is a PUT on
  an object path (not a bucket path) under strong or weak, or is a PUT that queries ?acl,
  or is a DELETE on an object path under strong/weak. GETs never insert. Under none, never
  insert.'' The two closing sentences are taken as they stand: under \<^verbatim>\<open>none\<close> and for
  a GET nothing is inserted whatever the rest says.
\<close>

definition shouldLogRequest :: "ConsistencyLevel \<Rightarrow> request \<Rightarrow> bool" where
  "shouldLogRequest level req =
     (if level = None' then False
      else if Method req = MethodGet then False
      else (Method req = MethodPut \<and> \<not> isBucketPath (Path req))
           \<or> (Method req = MethodPut \<and> queriesACL req)
           \<or> (Method req = MethodDelete \<and> \<not> isBucketPath (Path req)))"

text \<open>
  Modelled from the spec: the calls the gate makes on the consistency log (section 4.6:
  insert, delete of the record a delete marker stands for, update of a record's
  execution date). A delete marker is a number.
\<close>

datatype logCall =
  LogInsert ConsistencyRecord'
  | LogDelete nat
  | LogUpdateExecutionDelay nat

text \<open>
  Modelled from the spec: the \<^verbatim>\<open>consistencyRequest\<close> that the tests hand to
  \<^verbatim>\<open>awaitCompletion\<close>, with the values they put into the request's context: the
  request, the delete marker of the record inserted for it (if there is one), the
  version lifted into \<^verbatim>\<open>ReadRepairObjectVersion\<close> by step 4 of section 4.3 (\<open>None\<close>
  when the slot is absent or holds the empty string, as in the first row of
  \<^verbatim>\<open>TestReadRepair\<close>), the flag \<^verbatim>\<open>NoErrorsDuringRequest\<close> (\<open>None\<close> when absent) and
  the flag \<^verbatim>\<open>multiPartUpload\<close> of section 4.4.
\<close>

record consistencyRequest =
  Request :: request
  DeleteMarker :: "nat option"
  ReadRepairObjectVersion :: "int option"
  NoErrorsDuringRequest :: "bool option"
  multiPartUpload :: bool

text \<open>
  Modelled from the spec: \<^verbatim>\<open>ConsistentShardsRing.awaitCompletion\<close> is not in the
  sources; its tests \<^verbatim>\<open>TestRecordCompaction\<close> and \<^verbatim>\<open>TestReadRepair\<close> are. Section
  4.5, step 6: ``If noErrors and the request was not an in-flight multipart upload,
  delete the record (and its DeleteMarker) from C6. Else keep the record [...]. For an
  in-flight multipart (complete-upload seen), update the record's executionDate by a
  configured delta instead of deleting.'' Step 7: ``For GETs, if C3 lifted
  readRepairObjectVersion and the region has readRepair = true, synthesize a PUT-shaped
  record carrying that version and insert it into C6''; whether the region has
  \<^verbatim>\<open>readRepair\<close> is looked at when the version is lifted (see the gate below), as the
  test of the read repair sets no such flag. \<open>record\<close> is the record the record
  factory creates for the request.
\<close>

definition awaitCompletion :: "ConsistencyRecord' \<Rightarrow> consistencyRequest \<Rightarrow> logCall list" where
  "awaitCompletion record cr =
     (case DeleteMarker cr of
        None \<Rightarrow> []
      | Some deleteMarker \<Rightarrow>
          if multiPartUpload cr then [LogUpdateExecutionDelay deleteMarker]
          else if NoErrorsDuringRequest cr = Some True then [LogDelete deleteMarker]
          else [])
     @ (if Method (Request cr) = MethodGet
        then (case ReadRepairObjectVersion cr of
                None \<Rightarrow> []
              | Some objectVersion \<Rightarrow>
                  [LogInsert (record\<lparr>Method' := PUT, ObjectVersion := objectVersion\<rparr>)])
        else [])"

text \<open>
  Modelled from the spec: what the shards ring and the layers below it hand back to the
  gate, partly through the request's context: the outcome of the dispatch, the version
  the ring lifted for a read repair (section 4.3, step 4), whether every replica
  answered without error (section 4.5, step 5), and whether a multipart upload was
  completed (section 4.4).
\<close>

record ringAnswer =
  ringOutcome :: outcome
  liftedVersion :: "int option"
  noErrors :: bool
  completedMultipart :: bool

text \<open>
  What the gate did with a request: the calls it made on the consistency log, the
  requests it handed to the shards ring, and its answer. \<open>insertCalls\<close> are the
  records it handed to the log's \<^verbatim>\<open>Insert\<close>.
\<close>

record gateResult =
  logCalls :: "logCall list"
  ringCalls :: "request list"
  answer :: "error + outcome"

definition insertCalls :: "gateResult \<Rightarrow> ConsistencyRecord' list" where
  "insertCalls g =
     List.map_filter (\<lambda>c. case c of LogInsert r \<Rightarrow> Some r | _ \<Rightarrow> None) (logCalls g)"

text \<open>
  Modelled from the spec: \<^verbatim>\<open>ConsistentShardsRing.DoRequest\<close>, steps 2 to 7 of section 4.5
  (step 3: ``If consistencyLevel = strong and insert fails, abort the request with the
  log's error. If weak, log and proceed.''; step 4: ``Forward to C3 / C4.''; then the
  completion, which ``always runs''). \<open>Insert\<close> is the log's insert, which returns a
  delete marker and an error, either of which may be nil; \<open>shardsRingDoRequest\<close> is
  the shards ring; \<open>readRepair\<close> is the region's read-repair flag: a version is lifted
  for the completion only when it is set; \<open>record\<close> is the record the record factory
  creates for the request.
\<close>

definition ConsistentShardsRing_DoRequest ::
  "(ConsistencyRecord' \<Rightarrow> nat option \<times> error option) \<Rightarrow> (request \<Rightarrow> ringAnswer)
     \<Rightarrow> ConsistencyLevel \<Rightarrow> bool \<Rightarrow> ConsistencyRecord' \<Rightarrow> request \<Rightarrow> gateResult" where
  "ConsistentShardsRing_DoRequest Insert shardsRingDoRequest level readRepair record req =
     (let logged = shouldLogRequest level req;
          (deleteMarker, insertErr) = (if logged then Insert record else (None, None));
          inserts = (if logged then [LogInsert record] else [])
      in case insertErr of
           Some e \<Rightarrow>
             if level = Strong
             then \<lparr>logCalls = inserts, ringCalls = [], answer = Inl e\<rparr>
             else let ra = shardsRingDoRequest req
                  in \<lparr>logCalls = inserts @ awaitCompletion record
                          \<lparr>Request = req, DeleteMarker = deleteMarker,
                           ReadRepairObjectVersion = (if readRepair then liftedVersion ra else None),
                           NoErrorsDuringRequest = Some (noErrors ra),
                           multiPartUpload = completedMultipart ra\<rparr>,
                       ringCalls = [req], answer = Inr (ringOutcome ra)\<rparr>
         | None \<Rightarrow>
             let ra = shardsRingDoRequest req
             in \<lparr>logCalls = inserts @ awaitCompletion record
                     \<lparr>Request = req, DeleteMarker = deleteMarker,
                      ReadRepairObjectVersion = (if readRepair then liftedVersion ra else None),
                      NoErrorsDuringRequest = Some (noErrors ra),
                      multiPartUpload = completedMultipart ra\<rparr>,
                  ringCalls = [req], answer = Inr (ringOutcome ra)\<rparr>)"

section \<open>The configuration-validation endpoint (package config)\<close>

text \<open>
  \<^verbatim>\<open>http.ResponseWriter\<close>, as net/http documents it: the first \<^verbatim>\<open>WriteHeader\<close> fixes
  the status code and later calls change nothing; a \<^verbatim>\<open>Write\<close> before any
  \<^verbatim>\<open>WriteHeader\<close> first writes the header with status 200.
\<close>

record ResponseWriter =
  wroteHeader :: bool
  status :: int
  written :: string

definition newResponseWriter :: ResponseWriter where
  "newResponseWriter = \<lparr>wroteHeader = False, status = 200, written = []\<rparr>"

definition WriteHeader :: "int \<Rightarrow> ResponseWriter \<Rightarrow> ResponseWriter" where
  "WriteHeader code w = (if wroteHeader w then w else w\<lparr>wroteHeader := True, status := code\<rparr>)"

definition Write :: "string \<Rightarrow> ResponseWriter \<Rightarrow> ResponseWriter" where
  "Write data w =
     (let w' = (if wroteHeader w then w else WriteHeader 200 w)
      in w'\<lparr>written := written w' @ data\<rparr>)"

text \<open>The status code the client receives once the handler has returned.\<close>

definition responseStatus :: "ResponseWriter \<Rightarrow> int" where
  "responseStatus w = (if wroteHeader w then status w else 200)"

definition StatusOK :: int where "StatusOK = 200"
definition StatusBadRequest :: int where "StatusBadRequest = 400"
definition StatusNotAcceptable :: int where "StatusNotAcceptable = 406"
definition StatusInternalServerError :: int where "StatusInternalServerError = 500"

text \<open>
  \<^verbatim>\<open>ValidateConfigurationHTTPHandler\<close>. \<^verbatim>\<open>yaml.Unmarshal\<close> and the validator library
  behind \<^verbatim>\<open>ValidateConf\<close> are outside the sources: \<open>Unmarshal\<close> maps the body to an
  error text or a configuration, \<open>ValidateConf\<close> maps a configuration to its verdict and
  the text of its errors.
\<close>

definition ValidateConfigurationHTTPHandler ::
  "(string \<Rightarrow> string + 'c) \<Rightarrow> ('c \<Rightarrow> bool \<Rightarrow> bool \<times> string)
     \<Rightarrow> ResponseWriter \<Rightarrow> request \<Rightarrow> ResponseWriter" where
  "ValidateConfigurationHTTPHandler Unmarshal ValidateConf w req =
     (if Method req \<noteq> MethodPost then WriteHeader StatusNotAcceptable w
      else (case Body req of
              Inl e \<Rightarrow> WriteHeader StatusInternalServerError w
            | Inr body \<Rightarrow>
                (case Unmarshal body of
                   Inl e \<Rightarrow>
                     WriteHeader StatusBadRequest (Write (''YAML Unmarshal Error: '' @ e) w)
                 | Inr yamlConfig \<Rightarrow>
                     (case ValidateConf yamlConfig True of
                        (valid, errs) \<Rightarrow>
                          if \<not> valid
                          then WriteHeader StatusBadRequest (Write errs w)
                          else WriteHeader StatusOK (Write ''Configuration checked - OK.'' w)))))"

section \<open>Notions used to state the properties of the ring\<close>

text \<open>The name of the fallback shard the regression map gives for a shard name.\<close>

definition fallbackName :: "ShardsRing \<Rightarrow> string \<Rightarrow> string option" where
  "fallbackName sr a = map_option Name (clusterRegressionMap sr a)"

text \<open>A list of shard names in which every name is followed by its fallback.\<close>

fun regressionChain :: "ShardsRing \<Rightarrow> string list \<Rightarrow> bool" where
  "regressionChain sr (a # b # xs) = (fallbackName sr a = Some b \<and> regressionChain sr (b # xs))"
| "regressionChain sr xs = True"

text \<open>Concrete shards, rings and requests, used to run the definitions.\<close>

definition status_outcome :: "int \<Rightarrow> outcome" where
  "status_outcome code = \<lparr>resp = Some \<lparr>StatusCode = code, RespHeader = Map.empty\<rparr>,
     err = None, panicked = False\<rparr>"

definition fixed_shard :: "string \<Rightarrow> nat \<Rightarrow> int \<Rightarrow> NamedShardClient" where
  "fixed_shard name a code = \<lparr>Name = name, Backends = [], addr = a,
     RoundTrip = (\<lambda>n req. status_outcome code)\<rparr>"

definition example_request :: "string \<Rightarrow> string \<Rightarrow> request" where
  "example_request m p = \<lparr>Method = m, Path = p, Query = [], Header = Map.empty,
     GetBody = GetBodyReturns, Body = Inr [], ctxClusterName = Some ''cluster1'',
     ctxReqID = Some ''req-1''\<rparr>"

definition example_storages :: "int \<Rightarrow> int \<Rightarrow> (string \<rightharpoonup> NamedShardClient)" where
  "example_storages c1 c2 = [''s1'' \<mapsto> fixed_shard ''s1'' 1 c1, ''s2'' \<mapsto> fixed_shard ''s2'' 2 c2]"

definition example_ring :: "int \<Rightarrow> int \<Rightarrow> ShardsRing" where
  "example_ring c1 c2 = \<lparr>ring = (\<lambda>key. Some ''s1''),
     shardClusterMap = example_storages c1 c2,
     allClustersRoundTripper = (\<lambda>req. status_outcome 200),
     mergedShards = [fixed_shard ''s1'' 1 c1, fixed_shard ''s2'' 2 c2],
     clusterRegressionMap = [''s1'' \<mapsto> fixed_shard ''s2'' 2 c2, ''s2'' \<mapsto> fixed_shard ''s1'' 1 c1],
     watchdogVersionHeaderName = ''x-watchdog-version''\<rparr>"

text \<open>
  The ring of a region whose configuration lists the shard \<open>s2\<close> twice (\<open>s1\<close>,
  \<open>s2\<close>, \<open>s2\<close>): in its regression map \<open>s2\<close> falls back to itself.
\<close>

definition duplicate_ring :: "int \<Rightarrow> int \<Rightarrow> ShardsRing" where
  "duplicate_ring c1 c2 = (example_ring c1 c2)\<lparr>clusterRegressionMap :=
     [''s1'' \<mapsto> fixed_shard ''s2'' 2 c2, ''s2'' \<mapsto> fixed_shard ''s2'' 2 c2]\<rparr>"



definition example_utils :: utils where
  "example_utils = \<lparr>ExtractBucketAndKey = (\<lambda>path. (''b'', ''o'')),
                     ExtractAccessKey = (\<lambda>request. ''AKIA'')\<rparr>"

definition example_record :: "int \<Rightarrow> ConsistencyRecord" where
  "example_record t = \<lparr>objectID = ''b/o'', method' = PUT, cluster = ''cluster1'',
     accessKey = ''AKIA'', requestId = ''req-1'', ExecutionDate = t,
     isReflectedOnBackends = True\<rparr>"

definition example_shard :: "string \<Rightarrow> nat \<Rightarrow> string list \<Rightarrow> NamedShardClient" where
  "example_shard name a endpoints = \<lparr>Name = name,
     Backends = map (\<lambda>e. \<lparr>BackendName = e, Endpoint = e\<rparr>) endpoints, addr = a,
     RoundTrip = (\<lambda>n req. status_outcome 200)\<rparr>"

definition example_filter_ring :: ShardsRing where
  "example_filter_ring = \<lparr>ring = (\<lambda>key. Some ''s1''),
     shardClusterMap = [''s1'' \<mapsto> example_shard ''s1'' 1 [''a1'', ''a2''],
                        ''s2'' \<mapsto> example_shard ''s2'' 2 [''b1'']],
     allClustersRoundTripper = (\<lambda>req. status_outcome 200),
     mergedShards = [example_shard ''s1'' 1 [''a1'', ''a2''], example_shard ''s2'' 2 [''b1'']],
     clusterRegressionMap = Map.empty,
     watchdogVersionHeaderName = ''x-watchdog-version''\<rparr>"

text \<open>A filter whose version fetcher finds the object on every storage, in the given version.\<close>

definition example_filter :: "(string \<Rightarrow> int) \<Rightarrow> DefaultWALFilter" where
  "example_filter versions = \<lparr>GetShardsRing = (\<lambda>domain. Inr example_filter_ring),
     ResolveClientForBackend = (\<lambda>name obj ak. Inr \<lparr>access = ''AK'', secret = ''SK''\<rparr>),
     versionFetcher = (\<lambda>auth bucket key.
        Inr \<lparr>storageEndpoint = AuthEndpoint auth, version = versions (AuthEndpoint auth),
             objectNotFound = False\<rparr>),
     rings = Map.empty\<rparr>"

definition example_entry :: "Method \<Rightarrow> int \<Rightarrow> WALEntry" where
  "example_entry m v = \<lparr>Record = \<lparr>ObjectID = ''b/o'', Domain = ''d'', Method' = m,
       AccessKey = ''AK'', RequestID = ''r1'', ObjectVersion = v\<rparr>,
     RecordProcessedHook = OtherHook 1\<rparr>"

definition example_client :: "string \<Rightarrow> MigrationAuth" where
  "example_client e = \<lparr>AuthAccessKey = ''AK'', AuthSecretKey = ''SK'', AuthEndpoint = e\<rparr>"

text \<open>The request of the test table of the gate: a method, a path and whether \<^verbatim>\<open>?acl\<close> is asked.\<close>

definition test_request :: "string \<Rightarrow> string \<Rightarrow> bool \<Rightarrow> request" where
  "test_request m p acl = (example_request m p)\<lparr>Query := (if acl then [(''acl'', [])] else [])\<rparr>"

definition ring_answers :: "int option \<Rightarrow> request \<Rightarrow> ringAnswer" where
  "ring_answers lifted req = \<lparr>ringOutcome = status_outcome 200, liftedVersion = lifted,
     noErrors = True, completedMultipart = False\<rparr>"

definition ran_gate :: "ConsistencyLevel \<Rightarrow> request \<Rightarrow> gateResult" where
  "ran_gate level req =
     ConsistentShardsRing_DoRequest (\<lambda>r. (None, None)) (ring_answers None) level False
       (Record (example_entry PUT 0)) req"

text \<open>The \<^verbatim>\<open>consistencyRequest\<close> of \<^verbatim>\<open>TestRecordCompaction\<close> and of \<^verbatim>\<open>TestReadRepair\<close>.\<close>

definition compaction_request :: "bool \<Rightarrow> consistencyRequest" where
  "compaction_request noErrorsOccurred =
     \<lparr>Request = test_request ''PUT'' ''/bukcet/obj'' False, DeleteMarker = Some 1,
      ReadRepairObjectVersion = None, NoErrorsDuringRequest = Some noErrorsOccurred,
      multiPartUpload = False\<rparr>"

definition read_repair_request :: "int option \<Rightarrow> consistencyRequest" where
  "read_repair_request objectVersion =
     \<lparr>Request = test_request ''GET'' ''/bukcet/obj'' False, DeleteMarker = None,
      ReadRepairObjectVersion = objectVersion, NoErrorsDuringRequest = None,
      multiPartUpload = False\<rparr>"

section \<open>Properties of the shards ring\<close>

subsection \<open>Bucket paths\<close>

lemma Split_not_Nil: "Split s c \<noteq> []"
  by (cases s) (auto split: list.splits)

lemma length_Split: "length (Split s c) = Suc (length (filter (\<lambda>x. x = c) s))"
  by (induction s) (auto simp: Split_not_Nil split: list.splits)

lemma Trim_all_sep: "set s \<subseteq> {c} \<Longrightarrow> Trim s c = []"
  by (auto simp: Trim_def dest!: set_dropWhileD)

lemma isBucketPath_iff: "isBucketPath path \<longleftrightarrow> CHR ''/'' \<notin> set (Trim path CHR ''/'')"
  by (auto simp: isBucketPath_def length_Split filter_empty_conv)

subsection \<open>The regression map that \<^verbatim>\<open>createRegressionMap\<close> builds\<close>

lemma regressionLoop_eq:
  assumes "distinct ns" and "\<forall>n\<in>set ns. storages n \<noteq> None"
  shows "regressionLoop storages ns prev m =
         Inr (\<lambda>k. case map_of (zip ns (prev # map (\<lambda>n. the (storages n)) ns)) k of
                     None \<Rightarrow> m k | Some v \<Rightarrow> Some v)"
  using assms
proof (induction ns arbitrary: prev m)
  case Nil
  then show ?case by simp
next
  case (Cons n ns)
  let ?c = "the (storages n)"
  let ?Z = "zip ns (?c # map (\<lambda>n. the (storages n)) ns)"
  have g: "GetShard storages n = Inr ?c"
    using Cons.prems by (auto simp: GetShard_def)
  have ih: "regressionLoop storages ns ?c (m(n \<mapsto> prev)) =
      Inr (\<lambda>k. case map_of ?Z k of None \<Rightarrow> (m(n \<mapsto> prev)) k | Some v \<Rightarrow> Some v)"
    by (rule Cons.IH) (use Cons.prems in auto)
  have notin: "map_of ?Z n = None"
  proof (cases "map_of ?Z n")
    case (Some v)
    then have "n \<in> set ns" by (auto dest!: map_of_SomeD set_zip_leftD)
    then show ?thesis using Cons.prems(1) by simp
  qed simp
  have "(\<lambda>k. case map_of ?Z k of None \<Rightarrow> (m(n \<mapsto> prev)) k | Some v \<Rightarrow> Some v) =
        (\<lambda>k. case map_of (zip (n # ns) (prev # map (\<lambda>n. the (storages n)) (n # ns))) k of
                None \<Rightarrow> m k | Some v \<Rightarrow> Some v)"
  proof (rule ext)
    fix k
    show "(case map_of ?Z k of None \<Rightarrow> (m(n \<mapsto> prev)) k | Some v \<Rightarrow> Some v) =
          (case map_of (zip (n # ns) (prev # map (\<lambda>n. the (storages n)) (n # ns))) k of
                None \<Rightarrow> m k | Some v \<Rightarrow> Some v)"
      using notin by (cases "k = n") (simp_all split: option.splits)
  qed
  with g ih show ?case by simp
qed

lemma zip_longer: "length xs \<le> length ys \<Longrightarrow> zip xs (ys @ zs) = zip xs ys"
  by (simp add: zip_append2)

lemma createRegressionMap_eq:
  assumes "ns \<noteq> []" and "distinct ns" and "\<forall>n\<in>set ns. storages n \<noteq> None"
  shows "createRegressionMap storages ns =
         Inr (map_of (zip ns (map (\<lambda>n. the (storages n)) (last ns # butlast ns))))"
proof -
  let ?cl = "\<lambda>n. the (storages n)"
  have "last ns \<in> set ns" using assms(1) by simp
  then have "storages (last ns) \<noteq> None" using assms(3) by blast
  then have g: "GetShard storages (last ns) = Inr (?cl (last ns))"
    by (auto simp: GetShard_def)
  have z: "zip ns (?cl (last ns) # map ?cl ns) = zip ns (map ?cl (last ns # butlast ns))"
  proof -
    have "length ns \<le> length (?cl (last ns) # map ?cl (butlast ns))"
      by simp
    then have "zip ns ((?cl (last ns) # map ?cl (butlast ns)) @ [?cl (last ns)])
        = zip ns (?cl (last ns) # map ?cl (butlast ns))"
      by (rule zip_longer)
    moreover have "map ?cl ns = map ?cl (butlast ns) @ [?cl (last ns)]"
    proof -
      have "map ?cl ns = map ?cl (butlast ns @ [last ns])"
        using assms(1) by simp
      then show ?thesis by (simp only: map_append list.map)
    qed
    ultimately show ?thesis by (simp only: append_Cons list.map)
  qed
  have "createRegressionMap storages ns =
      Inr (\<lambda>k. case map_of (zip ns (?cl (last ns) # map ?cl ns)) k of
                     None \<Rightarrow> Map.empty k | Some v \<Rightarrow> Some v)"
    using assms g by (simp add: createRegressionMap_def regressionLoop_eq [OF assms(2,3)])
  also have "(\<lambda>k. case map_of (zip ns (?cl (last ns) # map ?cl ns)) k of
                     None \<Rightarrow> Map.empty k | Some v \<Rightarrow> Some v)
      = map_of (zip ns (map ?cl (last ns # butlast ns)))"
    unfolding z by (rule ext) (simp split: option.splits)
  finally show ?thesis .
qed

subsection \<open>The regression walk\<close>

lemma regressionChain_snoc:
  "regressionChain sr (p @ [y]) =
     (regressionChain sr p \<and> (p = [] \<or> fallbackName sr (last p) = Some y))"
  by (induction sr p rule: regressionChain.induct) auto

lemma regressionChain_pred:
  "regressionChain sr p \<Longrightarrow> y \<in> set (tl p) \<Longrightarrow> \<exists>a\<in>set (butlast p). fallbackName sr a = Some y"
  by (induction sr p rule: regressionChain.induct) auto

lemma regressionCall_walk:
  assumes inj: "\<And>a b y. fallbackName sr a = Some y \<Longrightarrow> fallbackName sr b = Some y \<Longrightarrow> a = b"
      and rng: "\<And>a y. fallbackName sr a = Some y \<Longrightarrow> y \<in> S"
      and fin: "finite S"
  shows "hd (sent @ [Name cl]) = orig \<Longrightarrow> distinct (sent @ [Name cl])
         \<Longrightarrow> set (tl (sent @ [Name cl])) \<subseteq> S \<Longrightarrow> regressionChain sr (sent @ [Name cl])
         \<Longrightarrow> \<exists>tr nm out. regressionCall sr cl orig req sent = Some (tr, nm, out)
               \<and> tr \<noteq> [] \<and> hd tr = orig \<and> distinct tr \<and> set (tl tr) \<subseteq> S
               \<and> regressionChain sr tr"
proof (induction "card S - length sent" arbitrary: sent cl rule: less_induct)
  case less
  let ?p = "sent @ [Name cl]"
  let ?out = "send cl req (length sent)"
  have stop: "\<exists>tr nm out. Some (?p, Name cl, ?out) = Some (tr, nm, out)
               \<and> tr \<noteq> [] \<and> hd tr = orig \<and> distinct tr \<and> set (tl tr) \<subseteq> S
               \<and> regressionChain sr tr"
    using less.prems by simp
  show ?case
  proof (cases "\<not> panicked ?out \<and> shouldCallRegression req ?out")
    case False
    then show ?thesis
      using stop by (subst regressionCall.simps) (auto simp: Let_def)
  next
    case True
    show ?thesis
    proof (cases "clusterRegressionMap sr (Name cl)")
      case None
      then show ?thesis
        using stop True by (subst regressionCall.simps) (simp add: Let_def)
    next
      case (Some rcl)
      show ?thesis
      proof (cases "Name rcl = orig")
        case True
        then show ?thesis
          using stop Some \<open>\<not> panicked ?out \<and> shouldCallRegression req ?out\<close>
          by (subst regressionCall.simps) (simp add: Let_def)
      next
        case False
        let ?y = "Name rcl"
        have fb: "fallbackName sr (Name cl) = Some ?y"
          using Some by (simp add: fallbackName_def)
        have yS: "?y \<in> S" using fb by (rule rng)
        have notin: "?y \<notin> set ?p"
        proof
          assume "?y \<in> set ?p"
          moreover have "?p = orig # tl ?p"
            using less.prems(1) by (cases sent) auto
          ultimately have "?y \<in> set (tl ?p)"
            using False by (metis set_ConsD)
          then obtain a where a: "a \<in> set (butlast ?p)" "fallbackName sr a = Some ?y"
            using regressionChain_pred [OF less.prems(4)] by blast
          then have "a = Name cl" using fb inj by blast
          moreover have "a \<in> set sent" using a(1) by simp
          ultimately show False using less.prems(2) by simp
        qed
        have hd': "hd (?p @ [?y]) = orig" using less.prems(1) by (cases sent) auto
        have dist': "distinct (?p @ [?y])" using less.prems(2) notin by auto
        have sub': "set (tl (?p @ [?y])) \<subseteq> S"
          using less.prems(3) yS by (cases sent) auto
        have chain': "regressionChain sr (?p @ [?y])"
          using less.prems(4) fb regressionChain_snoc [of sr ?p ?y] by simp
        have "distinct (tl (?p @ [?y]))" using dist' by (rule distinct_tl)
        then have "length (tl (?p @ [?y])) \<le> card S"
          using sub' fin by (metis card_mono distinct_card)
        then have m: "card S - length ?p < card S - length sent" by simp
        have "\<exists>tr nm out. regressionCall sr rcl orig req ?p = Some (tr, nm, out)
               \<and> tr \<noteq> [] \<and> hd tr = orig \<and> distinct tr \<and> set (tl tr) \<subseteq> S
               \<and> regressionChain sr tr"
          using less.hyps [OF m hd' dist' sub' chain'] .
        then show ?thesis
          using Some False \<open>\<not> panicked ?out \<and> shouldCallRegression req ?out\<close>
          by (subst regressionCall.simps) (simp add: Let_def)
      qed
    qed
  qed
qed

lemma regressionCall_trace:
  assumes "regressionCall sr cl orig req sent = Some res"
  shows "\<exists>rest. fst res = sent @ Name cl # rest \<and> regressionChain sr (Name cl # rest)
           \<and> orig \<notin> set rest"
  using assms
proof (induction sr cl orig req sent res rule: regressionCall.raw_induct)
  case (1 f sr cl orig req sent res)
  show ?case
  proof (cases "\<not> panicked (send cl req (length sent))
        \<and> shouldCallRegression req (send cl req (length sent))
        \<and> (\<exists>rcl. clusterRegressionMap sr (Name cl) = Some rcl \<and> Name rcl \<noteq> orig)")
    case False
    then have "res = (sent @ [Name cl], Name cl, send cl req (length sent))"
      using "1"(2) by (auto simp: Let_def split: option.splits if_splits)
    then show ?thesis by simp
  next
    case True
    then obtain rcl where r: "clusterRegressionMap sr (Name cl) = Some rcl" "Name rcl \<noteq> orig"
      by blast
    have F: "f sr rcl orig req (sent @ [Name cl]) = Some res"
      using "1"(2) True r by (simp add: Let_def)
    have G: "regressionCall sr rcl orig req (sent @ [Name cl]) = Some res"
      using "1"(3) True r by (subst (asm) regressionCall.simps) (simp add: Let_def)
    have "\<exists>rest. fst res = (sent @ [Name cl]) @ Name rcl # rest
        \<and> regressionChain sr (Name rcl # rest) \<and> orig \<notin> set rest"
      using F G by (rule "1"(1))
    then obtain rest where
      "fst res = (sent @ [Name cl]) @ Name rcl # rest" "regressionChain sr (Name rcl # rest)"
      "orig \<notin> set rest" by blast
    then have "fst res = sent @ Name cl # (Name rcl # rest)
       \<and> regressionChain sr (Name cl # Name rcl # rest) \<and> orig \<notin> set (Name rcl # rest)"
      using r by (auto simp: fallbackName_def)
    then show ?thesis by blast
  qed
qed (rule assms)

lemma createRegressionMap_fallback:
  assumes ne: "shards \<noteq> []" and d: "distinct shards"
      and st: "\<forall>n\<in>set shards. \<exists>c. storages n = Some c \<and> Name c = n"
      and rm: "createRegressionMap storages shards = Inr (clusterRegressionMap sr)"
  shows "fallbackName sr a = Some y \<longleftrightarrow>
         (\<exists>i<length shards. a = shards ! i \<and> y = (last shards # butlast shards) ! i)"
proof -
  let ?cl = "\<lambda>n. the (storages n)"
  let ?vs = "last shards # butlast shards"
  have len: "length ?vs = length shards" using ne by simp
  have setvs: "set ?vs = set shards"
    using ne by (metis append_butlast_last_id insert_is_Un list.simps(15) set_append sup_commute
        empty_set list.set(2) Un_insert_right sup_bot.right_neutral)
  have "\<forall>n\<in>set shards. storages n \<noteq> None" using st by auto
  then have "createRegressionMap storages shards = Inr (map_of (zip shards (map ?cl ?vs)))"
    using ne d by (rule createRegressionMap_eq [rotated 2])
  then have eq: "clusterRegressionMap sr = map_of (zip shards (map ?cl ?vs))"
    using rm by simp
  have nth: "\<And>i. i < length shards \<Longrightarrow> fallbackName sr (shards ! i) = Some (?vs ! i)"
  proof -
    fix i assume i: "i < length shards"
    have iv: "i < length ?vs" unfolding len by (rule i)
    have a: "map_of (zip shards (map ?cl ?vs)) (shards ! i) = Some (map ?cl ?vs ! i)"
      using d i len by (intro map_of_zip_nth) simp_all
    have b: "map ?cl ?vs ! i = ?cl (?vs ! i)"
      using iv by (rule nth_map)
    have "?vs ! i \<in> set shards"
      using iv setvs by (metis nth_mem)
    then have c: "Name (?cl (?vs ! i)) = ?vs ! i" using st by auto
    show "fallbackName sr (shards ! i) = Some (?vs ! i)"
      unfolding fallbackName_def eq by (simp only: a b c option.map)
  qed
  show ?thesis
  proof
    assume a: "fallbackName sr a = Some y"
    then have "a \<in> set shards"
      by (auto simp: fallbackName_def eq dest!: map_of_SomeD set_zip_leftD)
    then obtain i where i: "i < length shards" "a = shards ! i"
      by (auto simp: in_set_conv_nth)
    then have "y = ?vs ! i" using nth [of i] a by simp
    then show "\<exists>i<length shards. a = shards ! i \<and> y = ?vs ! i" using i by blast
  next
    assume "\<exists>i<length shards. a = shards ! i \<and> y = ?vs ! i"
    then show "fallbackName sr a = Some y" using nth by blast
  qed
qed

text \<open>
  The map is the cycle over the shard list: the first shard falls back to the last, every
  other shard to its predecessor.
\<close>

lemma createRegressionMap_cycle:
  assumes "shards \<noteq> []" and "distinct shards"
      and "\<forall>n\<in>set shards. \<exists>c. storages n = Some c \<and> Name c = n"
      and "createRegressionMap storages shards = Inr (clusterRegressionMap sr)"
      and "i < length shards"
  shows "fallbackName sr (shards ! i) = Some (if i = 0 then last shards else shards ! (i - 1))"
proof -
  have "fallbackName sr (shards ! i) = Some ((last shards # butlast shards) ! i)"
    using createRegressionMap_fallback [OF assms(1-4)] assms(5) by blast
  moreover have "(last shards # butlast shards) ! i
      = (if i = 0 then last shards else shards ! (i - 1))"
    using assms(5) by (cases i) (simp_all add: nth_butlast)
  ultimately show ?thesis by simp
qed

lemma set_last_butlast: "xs \<noteq> [] \<Longrightarrow> set (last xs # butlast xs) = set xs"
  by (cases xs rule: rev_cases) auto

lemma distinct_last_butlast: "xs \<noteq> [] \<Longrightarrow> distinct xs \<Longrightarrow> distinct (last xs # butlast xs)"
  by (cases xs rule: rev_cases) auto

lemma createRegressionMap_inj:
  assumes ne: "shards \<noteq> []" and d: "distinct shards"
      and st: "\<forall>n\<in>set shards. \<exists>c. storages n = Some c \<and> Name c = n"
      and rm: "createRegressionMap storages shards = Inr (clusterRegressionMap sr)"
      and a: "fallbackName sr a = Some y" and b: "fallbackName sr b = Some y"
  shows "a = b"
proof -
  let ?vs = "last shards # butlast shards"
  note fb = createRegressionMap_fallback [OF ne d st rm]
  have dvs: "distinct ?vs" using ne d by (rule distinct_last_butlast)
  have len: "length ?vs = length shards" using ne by simp
  obtain i j where i: "i < length shards" "a = shards ! i" "y = ?vs ! i"
    and j: "j < length shards" "b = shards ! j" "y = ?vs ! j"
    using a b unfolding fb by blast
  have "?vs ! i = ?vs ! j" using i(3) j(3) by (rule subst)
  moreover have "i < length ?vs" "j < length ?vs" unfolding len by (rule i(1), rule j(1))
  ultimately have "i = j" using dvs by (simp only: nth_eq_iff_index_eq)
  then show "a = b" using i(2) j(2) by simp
qed

lemma createRegressionMap_range:
  assumes ne: "shards \<noteq> []" and d: "distinct shards"
      and st: "\<forall>n\<in>set shards. \<exists>c. storages n = Some c \<and> Name c = n"
      and rm: "createRegressionMap storages shards = Inr (clusterRegressionMap sr)"
      and a: "fallbackName sr a = Some y"
  shows "y \<in> set shards"
proof -
  let ?vs = "last shards # butlast shards"
  note fb = createRegressionMap_fallback [OF ne d st rm]
  have len: "length ?vs = length shards" using ne by simp
  obtain i where i: "i < length shards" "y = ?vs ! i"
    using a unfolding fb by blast
  have "i < length ?vs" unfolding len by (rule i(1))
  then have "?vs ! i \<in> set ?vs" by (rule nth_mem)
  then have "?vs ! i \<in> set shards" by (simp only: set_last_butlast [OF ne])
  then show "y \<in> set shards" by (simp only: i(2))
qed

text \<open>A walk along the cycle that visits no shard twice makes fewer fallback calls than
  there are shards.\<close>

lemma walk_shorter:
  assumes ne: "shards \<noteq> []" and d: "distinct shards"
      and st: "\<forall>n\<in>set shards. \<exists>c. storages n = Some c \<and> Name c = n"
      and rm: "createRegressionMap storages shards = Inr (clusterRegressionMap sr)"
      and r: "tr \<noteq> []" "hd tr = orig" "distinct tr" "set (tl tr) \<subseteq> set shards"
             "regressionChain sr tr"
  shows "length (tl tr) < length shards"
proof (cases "tl tr")
  case Nil
  then show ?thesis using ne by simp
next
  case (Cons y ys)
  note fb = createRegressionMap_fallback [OF ne d st rm]
  have tr: "tr = orig # tl tr" using r(1,2) by (cases tr) auto
  have notin: "orig \<notin> set (tl tr)" using r(3) tr by (metis distinct.simps(2))
  have "regressionChain sr (orig # y # ys)" using r(5) tr Cons by simp
  then have "fallbackName sr orig = Some y" by simp
  then have "orig \<in> set shards" unfolding fb by auto
  then have lt: "card (set shards - {orig}) < card (set shards)"
    by (intro card_Diff1_less) simp_all
  have "set (tl tr) \<subseteq> set shards - {orig}"
    using r(4) notin by auto
  then have "card (set (tl tr)) \<le> card (set shards - {orig})"
    by (intro card_mono) simp_all
  then have "card (set (tl tr)) < card (set shards)"
    using lt by (rule le_less_trans)
  moreover have "distinct (tl tr)" using r(3) by (rule distinct_tl)
  ultimately show ?thesis using d by (simp add: distinct_card)
qed

lemma example_regression_map:
  "createRegressionMap (example_storages c1 c2) [''s1'', ''s2'']
     = Inr (clusterRegressionMap (example_ring c1 c2))"
  by (simp add: example_storages_def example_ring_def createRegressionMap_def GetShard_def Let_def)

lemma example_storages_named:
  "\<forall>n\<in>set [''s1'', ''s2'']. \<exists>c. example_storages c1 c2 n = Some c \<and> Name c = n"
  by (simp add: example_storages_def fixed_shard_def)

text \<open>
  C7. When the regression map is the one \<^verbatim>\<open>createRegressionMap\<close> builds from a list of
  distinct shard names, each resolved by the cluster storage to a client of that name,
  the regression walk started by \<^verbatim>\<open>DoRequest\<close> on any shard returns, whatever the shards
  answer. The shards it visits are pairwise distinct, the first is the original shard,
  which is not visited again, every later one is the fallback of the one before it, and
  there are fewer fallback calls than shards.
\<close>

theorem C7_regression_walk_terminates:
  assumes d: "distinct shards"
      and st: "\<forall>n\<in>set shards. \<exists>c. storages n = Some c \<and> Name c = n"
      and rm: "createRegressionMap storages shards = Inr (clusterRegressionMap sr)"
  shows "\<exists>sent nm out. regressionCall sr cl (Name cl) req [] = Some (sent, nm, out)
           \<and> hd sent = Name cl \<and> distinct sent \<and> Name cl \<notin> set (tl sent)
           \<and> set (tl sent) \<subseteq> set shards \<and> regressionChain sr sent
           \<and> length (tl sent) < length shards"
proof -
  have ne: "shards \<noteq> []"
    using rm by (auto simp: createRegressionMap_def)
  have "\<exists>tr nm out. regressionCall sr cl (Name cl) req [] = Some (tr, nm, out)
               \<and> tr \<noteq> [] \<and> hd tr = Name cl \<and> distinct tr \<and> set (tl tr) \<subseteq> set shards
               \<and> regressionChain sr tr"
    by (rule regressionCall_walk
          [OF createRegressionMap_inj [OF ne d st rm] createRegressionMap_range [OF ne d st rm]])
       simp_all
  then obtain tr nm out where r: "regressionCall sr cl (Name cl) req [] = Some (tr, nm, out)"
    "tr \<noteq> []" "hd tr = Name cl" "distinct tr" "set (tl tr) \<subseteq> set shards" "regressionChain sr tr"
    by blast
  have tr: "tr = Name cl # tl tr" using r(2,3) by (cases tr) auto
  have notin: "Name cl \<notin> set (tl tr)" using r(4) tr by (metis distinct.simps(2))
  have bound: "length (tl tr) < length shards"
    using r(2-6) by (rule walk_shorter [OF ne d st rm])
  show ?thesis using r notin bound by blast
qed

theorem C7_regression_walk_terminates_witness:
  "\<exists>sent nm out. regressionCall (example_ring 404 404) (fixed_shard ''s1'' 1 404) ''s1''
              (example_request ''GET'' ''/b/o'') [] = Some (sent, nm, out)
           \<and> hd sent = ''s1'' \<and> distinct sent \<and> ''s1'' \<notin> set (tl sent)
           \<and> set (tl sent) \<subseteq> set [''s1'', ''s2''] \<and> regressionChain (example_ring 404 404) sent
           \<and> length (tl sent) < length [''s1'', ''s2'']"
  using C7_regression_walk_terminates [OF _ example_storages_named example_regression_map,
      of 404 404 "fixed_shard ''s1'' 1 404" "example_request ''GET'' ''/b/o''"]
  by (simp add: fixed_shard_def)

subsection \<open>When a regression call is made\<close>

lemma regressionCall_status_400:
  assumes "send cl req (length sent) = \<lparr>resp = Some r, err = None, panicked = p\<rparr>"
      and "StatusCode r = 400"
  shows "regressionCall sr cl orig req sent
           = Some (sent @ [Name cl], Name cl, \<lparr>resp = Some r, err = None, panicked = p\<rparr>)"
  using assms by (subst regressionCall.simps) (simp add: shouldCallRegression_def Let_def)

text \<open>
  C2, as amended. After the send to a shard, \<^verbatim>\<open>regressionCall\<close> calls itself on the
  fallback shard exactly when the send returned (it did not panic) and (a) it gave a
  response and no error and the status code is above 400 and below 500, or it gave an
  error or no response and the request has no \<^verbatim>\<open>X-Akubra-No-Regression-On-Failure\<close>
  header, and (b) the regression map has a fallback for the shard whose name is not the
  original shard's. Otherwise the walk ends with the shard's own answer.
\<close>

theorem C2_regression_call_condition:
  "regressionCall sr cl orig req sent =
     (let out = send cl req (length sent) in
      if \<not> panicked out
         \<and> ((err out = None \<and> resp out \<noteq> None
             \<and> 400 < StatusCode (the (resp out)) \<and> StatusCode (the (resp out)) < 500)
          \<or> ((resp out = None \<or> err out \<noteq> None)
             \<and> Header req noTimeoutRegressionHeader = None))
         \<and> (\<exists>rcl. clusterRegressionMap sr (Name cl) = Some rcl \<and> Name rcl \<noteq> orig)
      then regressionCall sr (the (clusterRegressionMap sr (Name cl))) orig req (sent @ [Name cl])
      else Some (sent @ [Name cl], Name cl, out))"
  by (subst regressionCall.simps)
     (auto simp: shouldCallRegression_def Let_def split: option.splits)

theorem C2_regression_call_condition_witness:
  "regressionCall (example_ring 404 200) (fixed_shard ''s1'' 1 404) ''s1''
       (example_request ''GET'' ''/b/o'') []
   = regressionCall (example_ring 404 200) (fixed_shard ''s2'' 2 200) ''s1''
       (example_request ''GET'' ''/b/o'') [''s1'']"
  using C2_regression_call_condition [of "example_ring 404 200" "fixed_shard ''s1'' 1 404" "''s1''"
      "example_request ''GET'' ''/b/o''" "[]"]
  by (simp add: example_ring_def fixed_shard_def example_request_def status_outcome_def send_def
      Let_def)

text \<open>
  The claim as stated fails at status 400: the primary shard \<open>s1\<close> answers 400 without
  error, the regression map names the fallback \<open>s2\<close>, and no regression call is made.
\<close>

theorem C2_status_400_counterexample:
  "fallbackName (example_ring 400 200) ''s1'' = Some ''s2''
   \<and> regressionCall (example_ring 400 200) (fixed_shard ''s1'' 1 400) ''s1''
         (example_request ''GET'' ''/b/o'') []
       = Some ([''s1''], ''s1'', status_outcome 400)"
  by (simp add: regressionCall.simps example_ring_def fixed_shard_def example_request_def
      status_outcome_def send_def shouldCallRegression_def fallbackName_def)

subsection \<open>Where \<^verbatim>\<open>DoRequest\<close> sends a request\<close>















text \<open>
  When \<^verbatim>\<open>req.GetBody()\<close> returns an error no round trip is made, whatever the walk
  visits; when \<^verbatim>\<open>req.GetBody\<close> is nil the first send panics.
\<close>

lemma DoRequest_without_body:
  assumes "Method req \<noteq> MethodDelete" and "\<not> isBucketPath (Path req)"
      and "GetBody req \<noteq> GetBodyReturns" and "DoRequest sr req = Some r"
  shows "dispatched r = []"
  using assms by (auto simp: DoRequest_def roundTrips_def split: sum.splits option.splits)

lemma DoRequest_nil_GetBody:
  assumes "Method req \<noteq> MethodDelete" and "\<not> isBucketPath (Path req)"
      and "GetBody req = GetBodyNil" and "Pick sr (Path req) = Inr cl"
  shows "DoRequest sr req = Some \<lparr>dispatched = [], result = panic, liftsVersion = False\<rparr>"
  using assms
  by (simp add: DoRequest_def roundTrips_def regressionCall.simps send_def panic_def Let_def)

text \<open>
  Without distinct shard names the walk need not end. For the shard list \<open>s1\<close>,
  \<open>s2\<close>, \<open>s2\<close> the regression map sends \<open>s2\<close> to itself, and a request picked for
  \<open>s1\<close> that every shard answers with 404 is sent to \<open>s2\<close> for ever.
\<close>

lemma duplicate_regression_map:
  "createRegressionMap (example_storages c1 c2) [''s1'', ''s2'', ''s2'']
     = Inr (clusterRegressionMap (duplicate_ring c1 c2))"
  by (simp add: duplicate_ring_def example_ring_def example_storages_def createRegressionMap_def
      GetShard_def Let_def fun_eq_iff)

lemma duplicate_walk_never_returns:
  assumes "regressionCall sr cl orig req sent = Some res"
  shows "\<not> (sr = duplicate_ring 404 404 \<and> cl = fixed_shard ''s2'' 2 404 \<and> orig = ''s1''
            \<and> req = example_request ''GET'' ''/b/o'')"
  using assms
proof (induction sr cl orig req sent res rule: regressionCall.raw_induct)
  case (1 f sr cl orig req sent res)
  show ?case
  proof
    assume a: "sr = duplicate_ring 404 404 \<and> cl = fixed_shard ''s2'' 2 404 \<and> orig = ''s1''
            \<and> req = example_request ''GET'' ''/b/o''"
    have F: "f sr cl orig req (sent @ [Name cl]) = Some res"
      using "1"(2) a
      by (simp add: duplicate_ring_def example_ring_def fixed_shard_def example_request_def
          status_outcome_def send_def shouldCallRegression_def Let_def)
    have G: "regressionCall sr cl orig req (sent @ [Name cl]) = Some res"
      using "1"(3) a
      by (subst (asm) regressionCall.simps)
         (simp add: duplicate_ring_def example_ring_def fixed_shard_def example_request_def
          status_outcome_def send_def shouldCallRegression_def Let_def)
    show False using "1"(1) [OF F G] a by blast
  qed
qed (rule assms)

lemma DoRequest_duplicate_never_returns:
  "DoRequest (duplicate_ring 404 404) (example_request ''GET'' ''/b/o'') = None"
proof -
  have "regressionCall (duplicate_ring 404 404) (fixed_shard ''s2'' 2 404) ''s1''
          (example_request ''GET'' ''/b/o'') [''s1''] = None"
    using duplicate_walk_never_returns by (metis not_Some_eq)
  then have "regressionCall (duplicate_ring 404 404) (fixed_shard ''s1'' 1 404) ''s1''
          (example_request ''GET'' ''/b/o'') [] = None"
    by (subst regressionCall.simps)
       (simp add: duplicate_ring_def example_ring_def fixed_shard_def example_request_def
          status_outcome_def send_def shouldCallRegression_def Let_def)
  then show ?thesis
    by (simp add: DoRequest_def Pick_def isBucketPath_def Trim_def duplicate_ring_def
        example_ring_def example_storages_def fixed_shard_def example_request_def
        MethodDelete_def)
qed

text \<open>
  A request whose \<^verbatim>\<open>GetBody\<close> returns an error makes no round trip, though the walk
  visits \<open>s1\<close> and \<open>s2\<close>; the error is what \<^verbatim>\<open>DoRequest\<close> returns.
\<close>

lemma DoRequest_GetBody_error:
  "DoRequest (example_ring 404 200)
     ((example_request ''GET'' ''/b/o'')\<lparr>GetBody := GetBodyFails (OtherError ''body'')\<rparr>)
   = Some \<lparr>dispatched = [],
           result = \<lparr>resp = None, err = Some (OtherError ''body''), panicked = False\<rparr>,
           liftsVersion = False\<rparr>"
  by (simp add: DoRequest_def Pick_def isBucketPath_def Trim_def regressionCall.simps
        example_ring_def example_storages_def fixed_shard_def example_request_def
        status_outcome_def send_def shouldCallRegression_def noTimeoutRegressionHeader_def
        MethodDelete_def MethodGet_def roundTrips_def Let_def)

text \<open>
  C10. A path made of slashes only (the empty path included) is a bucket path for
  \<^verbatim>\<open>isBucketPath\<close>, so \<^verbatim>\<open>DoRequest\<close> hands the request to the all-clusters
  round-tripper and picks no shard.
\<close>

theorem C10_slash_only_path_is_bucket_path:
  assumes "set (Path req) \<subseteq> {CHR ''/''}"
  shows "isBucketPath (Path req) \<and>
         DoRequest sr req = Some \<lparr>dispatched = [ToAllClusters],
                                  result = allClustersRoundTripper sr req, liftsVersion = False\<rparr>"
proof -
  have "isBucketPath (Path req)"
    using assms by (simp add: isBucketPath_iff Trim_all_sep)
  then show ?thesis by (simp add: DoRequest_def)
qed

theorem C10_slash_only_path_is_bucket_path_witness:
  "isBucketPath ''/'' \<and>
   DoRequest (example_ring 200 200) (example_request ''GET'' ''/'')
     = Some \<lparr>dispatched = [ToAllClusters], result = status_outcome 200, liftsVersion = False\<rparr>"
  using C10_slash_only_path_is_bucket_path [of "example_request ''GET'' ''/''" "example_ring 200 200"]
  by (simp add: example_request_def example_ring_def)

section \<open>Properties of the consistency records\<close>

text \<open>
  C9. A record that \<^verbatim>\<open>CreateRecordFor\<close> builds at time \<open>now\<close> has its execution date
  exactly five minutes (300 000 000 000 ns) later, so at no time from \<open>now\<close> up to, but
  not including, that date is the record eligible for reconciliation.
\<close>

theorem C9_execution_date_five_minutes_ahead:
  assumes "CreateRecordFor u now request = Inr record"
  shows "ExecutionDate record = now + 300000000000
         \<and> (Method request = ''PUT'' \<or> Method request = ''DELETE'')
         \<and> (\<forall>t. now \<le> t \<and> t < now + 300000000000 \<longrightarrow> \<not> eligibleForReconciliation t record)"
proof -
  have e: "ExecutionDate record = now + fiveMinutes"
    and m: "Method request = ''PUT'' \<or> Method request = ''DELETE''"
    using assms
    by (auto simp: CreateRecordFor_def Let_def split: if_splits prod.splits option.splits)
  have f: "fiveMinutes = 300000000000" by (simp add: fiveMinutes_def Minute_def)
  show ?thesis using e m f by (simp add: eligibleForReconciliation_def)
qed

theorem C9_execution_date_five_minutes_ahead_witness:
  "CreateRecordFor example_utils 1000 (example_request ''PUT'' ''/b/o'')
      = Inr (example_record 300000001000)
   \<and> ExecutionDate (example_record 300000001000) = 1000 + 300000000000
   \<and> \<not> eligibleForReconciliation 1000 (example_record 300000001000)
   \<and> \<not> eligibleForReconciliation 300000000999 (example_record 300000001000)"
proof -
  have c: "CreateRecordFor example_utils 1000 (example_request ''PUT'' ''/b/o'')
      = Inr (example_record 300000001000)"
    by (simp add: CreateRecordFor_def example_utils_def example_request_def example_record_def
        fiveMinutes_def Minute_def)
  show ?thesis
    using C9_execution_date_five_minutes_ahead [OF c] c by simp
qed

section \<open>Properties of the version fetcher\<close>

lemma Fetch_not_found:
  "Fetch h e (HeadFailed ''404 Not Found'')
     = Inr \<lparr>storageEndpoint = e, version = - 1, objectNotFound = True\<rparr>"
  by (simp add: Fetch_def)

lemma Fetch_other_failure:
  "msg \<noteq> ''404 Not Found'' \<Longrightarrow> Fetch h e (HeadFailed msg) = Inl (OtherError msg)"
  by (simp add: Fetch_def)

lemma Fetch_other_status:
  "StatusCode r \<noteq> 200 \<Longrightarrow> Fetch h e (HeadAnswered r) = Inl (BadResponse (StatusCode r))"
  by (simp add: Fetch_def)

lemma Fetch_unparsable_header:
  "StatusCode r = 200 \<Longrightarrow> ParseInt (HeaderGet (RespHeader r) h) = Inl x
     \<Longrightarrow> Fetch h e (HeadAnswered r) = Inl x"
  by (simp add: Fetch_def)

lemma ParseInt_empty: "ParseInt [] = Inl (ErrSyntax [])"
  by (simp add: ParseInt_def)

lemma ParseInt_examples: "ParseInt ''123'' = Inr 123" "ParseInt ''-1'' = Inr (-1)" "ParseInt ''+7'' = Inr 7"
  "ParseInt ''-'' = Inl (ErrSyntax ''-'')" "ParseInt ''1_0'' = Inl (ErrSyntax ''1_0'')"
  "ParseInt ''9223372036854775808'' = Inl (ErrRange ''9223372036854775808'')"
  "ParseInt ''-9223372036854775808'' = Inr (-9223372036854775808)"
  by (simp_all add: ParseInt_def isDigit_def digitsValue_def)

lemma CanonicalMIMEHeaderKey_examples:
  "CanonicalMIMEHeaderKey ''X-Watchdog-Version'' = ''X-Watchdog-Version''"
  "CanonicalMIMEHeaderKey ''x-watchdog-version'' = ''X-Watchdog-Version''"
  "CanonicalMIMEHeaderKey ''ETAG'' = ''Etag''"
  "CanonicalMIMEHeaderKey ''x-amz meta'' = ''x-amz meta''"
  by (simp_all add: CanonicalMIMEHeaderKey_def validHeaderFieldByte_def isLower_def isUpper_def
      isDigit_def fieldMarks_def toUpper_def toLower_def Let_def)

text \<open>
  The header is found under the canonical form of the configured name: with the name in
  lower case \<^verbatim>\<open>Fetch\<close> reads the version of a response that carries
  \<^verbatim>\<open>X-Watchdog-Version\<close>.
\<close>

lemma Fetch_canonical_header_name:
  "Fetch ''x-watchdog-version'' ''http://s3''
      (HeadAnswered \<lparr>StatusCode = 200, RespHeader = [''X-Watchdog-Version'' \<mapsto> [''7'']]\<rparr>)
   = Inr \<lparr>storageEndpoint = ''http://s3'', version = 7, objectNotFound = False\<rparr>"
  by (simp add: Fetch_def HeaderGet_def CanonicalMIMEHeaderKey_examples ParseInt_def isDigit_def
      digitsValue_def)

text \<open>
  C4. A HEAD answered with status 200 and no version header: \<^verbatim>\<open>Fetch\<close> returns the
  error of \<^verbatim>\<open>strconv.ParseInt\<close>, not a state with version -1; so it does for a header
  that is not a number.
\<close>

theorem C4_fetch_without_version_header_fails:
  "Fetch ''X-Watchdog-Version'' ''http://s3''
      (HeadAnswered \<lparr>StatusCode = 200, RespHeader = Map.empty\<rparr>) = Inl (ErrSyntax [])
   \<and> Fetch ''X-Watchdog-Version'' ''http://s3''
      (HeadAnswered \<lparr>StatusCode = 200, RespHeader = [''X-Watchdog-Version'' \<mapsto> [''abc'']]\<rparr>)
      = Inl (ErrSyntax ''abc'')"
  by (simp add: Fetch_def HeaderGet_def CanonicalMIMEHeaderKey_examples ParseInt_def isDigit_def)

section \<open>Properties of the configuration-validation endpoint\<close>

lemma handler_status:
  "responseStatus (ValidateConfigurationHTTPHandler Unmarshal ValidateConf newResponseWriter req)
   = (if Method req \<noteq> MethodPost then 406
      else case Body req of Inl e \<Rightarrow> 500 | Inr body \<Rightarrow> 200)"
  by (auto simp: ValidateConfigurationHTTPHandler_def responseStatus_def newResponseWriter_def
      WriteHeader_def Write_def Let_def StatusOK_def StatusBadRequest_def StatusNotAcceptable_def
      StatusInternalServerError_def split: sum.splits prod.splits)

text \<open>
  C8. A POST whose body fails YAML unmarshalling, and a POST whose configuration fails
  validation, are answered with status 200: the handler writes the error text to the
  response before it calls \<^verbatim>\<open>WriteHeader(http.StatusBadRequest)\<close>, and the write has
  already sent the header with status 200.
\<close>

theorem C8_invalid_configuration_answered_200:
  "responseStatus (ValidateConfigurationHTTPHandler
       (\<lambda>body. Inl ''yaml: line 1: did not find expected node content'')
       (\<lambda>(conf :: unit) logical. (True, []))
       newResponseWriter ((example_request ''POST'' ''/'')\<lparr>Body := Inr ''Listen: [''\<rparr>)) = 200
   \<and> responseStatus (ValidateConfigurationHTTPHandler
       (\<lambda>body. Inr ())
       (\<lambda>(conf :: unit) logical. (False, ''map[Listen:[regular expression mismatch]]''))
       newResponseWriter ((example_request ''POST'' ''/'')\<lparr>Body := Inr ''Listen: x''\<rparr>)) = 200"
  by (simp add: ValidateConfigurationHTTPHandler_def responseStatus_def newResponseWriter_def
      WriteHeader_def Write_def Let_def StatusBadRequest_def example_request_def MethodPost_def)

section \<open>Properties of the WAL filter\<close>

lemma checkVersionsLoop_newer:
  assumes "storage \<in> set storages" and "version storage > ObjectVersion record"
      and "version storage \<noteq> - 1"
  shows "checkVersionsLoop record storages acc = None"
  using assms
proof (induction storages arbitrary: acc)
  case Nil
  then show ?case by simp
next
  case (Cons s rest)
  show ?case
  proof (cases "s = storage")
    case True
    then show ?thesis using Cons.prems by simp
  next
    case False
    then have "storage \<in> set rest" using Cons.prems(1) by simp
    then have "\<And>acc'. checkVersionsLoop record rest acc' = None"
      using Cons.IH Cons.prems(2,3) by blast
    then show ?thesis by (simp split: Method.splits)
  qed
qed

lemma prepareShardMigration_newer:
  assumes "storage \<in> set (storagesWithObject state)"
      and "version storage > ObjectVersion record" and "version storage \<noteq> - 1"
  shows "prepareShardMigration record state = (None, None)"
proof -
  have "checkVersions record state = None"
    unfolding checkVersions_def using assms by (rule checkVersionsLoop_newer)
  then have "resolveVersions record state = None"
    by (simp add: resolveVersions_def)
  then show ?thesis by (simp add: prepareShardMigration_def)
qed

lemma resolveStoragesKeysLoop_rings [simp]:
  "resolveStoragesKeysLoop (f\<lparr>rings := r\<rparr>) record bs ks = resolveStoragesKeysLoop f record bs ks"
  by (induction bs arbitrary: ks) (auto split: sum.splits)

lemma checkStoragesLoop_rings [simp]:
  "checkStoragesLoop (f\<lparr>rings := r\<rparr>) ks record b k bs w wo = checkStoragesLoop f ks record b k bs w wo"
  by (induction bs arbitrary: w wo) (auto simp: Let_def split: sum.splits)

lemma checkStoragesForObjectPresence_rings [simp]:
  "checkStoragesForObjectPresence (f\<lparr>rings := r\<rparr>) ks record shard
     = checkStoragesForObjectPresence f ks record shard"
  by (simp add: checkStoragesForObjectPresence_def Let_def)

lemma fetchVersionsFromStorages_rings [simp]:
  "fetchVersionsFromStorages (f\<lparr>rings := r\<rparr>) record shard = fetchVersionsFromStorages f record shard"
  by (simp add: fetchVersionsFromStorages_def resolveStoragesKeys_def split: sum.splits)

lemma determineStoragesLoop_rings [simp]:
  "determineStoragesLoop (f\<lparr>rings := r\<rparr>) record picked shards s d old
     = determineStoragesLoop f record picked shards s d old"
  by (induction shards arbitrary: s d old) (auto split: sum.splits prod.splits)

lemma determineRing_fst: "\<exists>r. fst (determineRing f entry) = f\<lparr>rings := r\<rparr>"
proof (cases "rings f (Domain (Record entry))")
  case None
  then show ?thesis
    by (cases "GetShardsRing f (Domain (Record entry))")
       (auto simp: determineRing_def Let_def intro: exI [of _ "rings f"])
next
  case (Some a)
  then show ?thesis by (auto simp: determineRing_def Let_def intro: exI [of _ "rings f"])
qed

lemma determineStoragesLoop_dropped:
  assumes "fetchVersionsFromStorages f record picked = Inr state"
      and "prepareShardMigration record state = (None, None)"
      and "\<forall>c\<in>set shards. addr c = addr picked \<longrightarrow> c = picked"
      and "determineStoragesLoop f record picked shards None None old = Inr rs"
  shows "targetShardSrcCli rs = None \<and> targetShardDstClis rs = None"
  using assms(3,4)
proof (induction shards arbitrary: old)
  case Nil
  then show ?case by auto
next
  case (Cons c rest)
  show ?case
  proof (cases "addr c = addr picked")
    case True
    then have "c = picked" using Cons.prems(1) by simp
    then have "rs = noopTask"
      using Cons.prems(2) assms(1,2) by simp
    then show ?thesis by (simp add: noopTask_def)
  next
    case False
    then obtain st where "fetchVersionsFromStorages f record c = Inr st"
      and "determineStoragesLoop f record picked rest None None
              (old @ getStoragesWithVersion (ObjectVersion record) st) = Inr rs"
      using Cons.prems(2) by (auto split: sum.splits)
    then show ?thesis using Cons.IH Cons.prems(1) by auto
  qed
qed

lemmas filter_defs = filterEntry_def determineRing_def
      determineStorages_def Pick_def
      List.map_filter_simps fetchVersionsFromStorages_def resolveStoragesKeys_def
      checkStoragesForObjectPresence_def keysOf_def prepareShardMigration_def resolveVersions_def
      checkVersions_def getStoragesWithVersion_def createS3Clients_def GetS3Client_def
      clearOldStoragesTask_def elems_def noopTask_def Let_def

lemmas example_defs = example_filter_def example_entry_def example_filter_ring_def
      example_shard_def example_client_def

lemma set_map_filter_ran: "c \<in> set (List.map_filter m xs) \<Longrightarrow> \<exists>k. m k = Some c"
  by (auto simp: List.map_filter_def)

lemma filterEntry_dropped:
  assumes ring: "snd (determineRing f walEntry) = Inr ring'"
      and pick: "Pick ring' (ObjectID (Record walEntry)) = Inr pickedShard"
      and ident: "\<forall>k c. shardClusterMap ring' k = Some c \<longrightarrow> addr c = addr pickedShard
                    \<longrightarrow> c = pickedShard"
      and fetch: "fetchVersionsFromStorages f (Record walEntry) pickedShard = Inr state"
      and p: "prepareShardMigration (Record walEntry) state = (None, None)"
      and out: "snd (filterEntry f order walEntry) = Task t # rest"
  shows "SourceClient t = None \<and> DestinationsClients t = []"
proof -
  obtain r where f': "fst (determineRing f walEntry) = f\<lparr>rings := r\<rparr>"
    using determineRing_fst by blast
  have dr: "determineRing f walEntry = (f\<lparr>rings := r\<rparr>, Inr ring')"
    using ring f' by (metis prod.collapse)
  let ?shards = "List.map_filter (shardClusterMap ring') order"
  have id': "\<forall>c\<in>set ?shards. addr c = addr pickedShard \<longrightarrow> c = pickedShard"
    using ident set_map_filter_ran by fast
  show "SourceClient t = None \<and> DestinationsClients t = []"
  proof (cases "determineStorages (f\<lparr>rings := r\<rparr>) order (Record walEntry) ring'")
    case (Inl e)
    then show ?thesis using out dr by (simp add: filterEntry_def)
  next
    case (Inr rs)
    then have "determineStoragesLoop f (Record walEntry) pickedShard ?shards None None [] = Inr rs"
      using pick by (simp add: determineStorages_def)
    then have "targetShardSrcCli rs = None \<and> targetShardDstClis rs = None"
      using determineStoragesLoop_dropped [OF fetch p id'] by blast
    then show ?thesis
      using out dr Inr by (auto simp: filterEntry_def Let_def elems_def)
  qed
qed

text \<open>
  C3. When a replica of the target shard that holds the object reports a version
  greater than the entry's object version, \<^verbatim>\<open>prepareShardMigration\<close> returns no source
  client and no destination clients, and the task the filter emits for the target
  shard, if it emits one, has neither. The version -1 stands for a replica that reports
  no version (the object has no version header), so a reported version is a version
  other than -1; for an entry whose object version is -1 or more, every greater version
  is one (lemma \<open>newer_version_of_versioned_entry\<close> below).
\<close>

theorem C3_newer_version_drops_entry:
  assumes ring: "snd (determineRing f walEntry) = Inr ring'"
      and pick: "Pick ring' (ObjectID (Record walEntry)) = Inr pickedShard"
      and ident: "\<forall>k c. shardClusterMap ring' k = Some c \<longrightarrow> addr c = addr pickedShard
                    \<longrightarrow> c = pickedShard"
      and fetch: "fetchVersionsFromStorages f (Record walEntry) pickedShard = Inr state"
      and newer: "storage \<in> set (storagesWithObject state)"
                 "version storage > ObjectVersion (Record walEntry)"
                 "version storage \<noteq> - 1"
  shows "prepareShardMigration (Record walEntry) state = (None, None)
         \<and> (\<forall>t rest. snd (filterEntry f order walEntry) = Task t # rest
               \<longrightarrow> SourceClient t = None \<and> DestinationsClients t = [])"
proof -
  have p: "prepareShardMigration (Record walEntry) state = (None, None)"
    using newer by (rule prepareShardMigration_newer)
  have "SourceClient t = None \<and> DestinationsClients t = []"
    if out: "snd (filterEntry f order walEntry) = Task t # rest" for t rest
    using ring pick ident fetch p out by (rule filterEntry_dropped)
  then show ?thesis using p by blast
qed

text \<open>
  The same for every entry whose object version is -1 or more, whatever version greater
  than it the replica reports.
\<close>

lemma newer_version_of_versioned_entry:
  assumes ring: "snd (determineRing f walEntry) = Inr ring'"
      and pick: "Pick ring' (ObjectID (Record walEntry)) = Inr pickedShard"
      and ident: "\<forall>k c. shardClusterMap ring' k = Some c \<longrightarrow> addr c = addr pickedShard
                    \<longrightarrow> c = pickedShard"
      and fetch: "fetchVersionsFromStorages f (Record walEntry) pickedShard = Inr state"
      and newer: "storage \<in> set (storagesWithObject state)"
                 "version storage > ObjectVersion (Record walEntry)"
      and versioned: "ObjectVersion (Record walEntry) \<ge> - 1"
  shows "prepareShardMigration (Record walEntry) state = (None, None)
         \<and> (\<forall>t rest. snd (filterEntry f order walEntry) = Task t # rest
               \<longrightarrow> SourceClient t = None \<and> DestinationsClients t = [])"
proof -
  have "version storage \<noteq> - 1" using newer(2) versioned by simp
  then have p: "prepareShardMigration (Record walEntry) state = (None, None)"
    using newer by (intro prepareShardMigration_newer)
  have "SourceClient t = None \<and> DestinationsClients t = []"
    if out: "snd (filterEntry f order walEntry) = Task t # rest" for t rest
    using ring pick ident fetch p out by (rule filterEntry_dropped)
  then show ?thesis using p by blast
qed

lemma example_determineRing:
  "snd (determineRing (example_filter vs) (example_entry m v)) = Inr example_filter_ring"
  by (simp add: determineRing_def example_filter_def example_entry_def)

lemma example_pick:
  "Pick example_filter_ring (ObjectID (Record (example_entry m v)))
     = Inr (example_shard ''s1'' 1 [''a1'', ''a2''])"
  by (simp add: Pick_def example_filter_ring_def example_entry_def)

lemma example_identity:
  "\<forall>k c. shardClusterMap example_filter_ring k = Some c
      \<longrightarrow> addr c = addr (example_shard ''s1'' 1 [''a1'', ''a2''])
      \<longrightarrow> c = example_shard ''s1'' 1 [''a1'', ''a2'']"
  by (simp add: example_filter_ring_def example_shard_def)

lemma example_fetch:
  "fetchVersionsFromStorages (example_filter vs) (Record (example_entry m v))
       (example_shard ''s1'' 1 [''a1'', ''a2''])
     = Inr \<lparr>storagesKeys = [''a1'' \<mapsto> \<lparr>access = ''AK'', secret = ''SK''\<rparr>,
                             ''a2'' \<mapsto> \<lparr>access = ''AK'', secret = ''SK''\<rparr>],
            storagesWithObject =
              [\<lparr>storageEndpoint = ''a1'', version = vs ''a1'', objectNotFound = False\<rparr>,
               \<lparr>storageEndpoint = ''a2'', version = vs ''a2'', objectNotFound = False\<rparr>],
            storagesWithoutObject = []\<rparr>"
  by (simp add: fetchVersionsFromStorages_def resolveStoragesKeys_def
      checkStoragesForObjectPresence_def keysOf_def Let_def example_filter_def example_entry_def
      example_shard_def)

theorem C3_newer_version_drops_entry_witness:
  "snd (filterEntry (example_filter (\<lambda>e. if e = ''a1'' then 7 else 3)) [''s2'', ''s1'']
          (example_entry PUT 5))
     = [Task \<lparr>WALEntry = example_entry PUT 5, SourceClient = None, DestinationsClients = []\<rparr>,
        Task \<lparr>WALEntry = (example_entry DELETE 5)\<lparr>RecordProcessedHook := noopHook\<rparr>,
              SourceClient = None, DestinationsClients = []\<rparr>]
   \<and> SourceClient \<lparr>WALEntry = example_entry PUT 5, SourceClient = None,
                      DestinationsClients = []\<rparr> = None"
proof -
  let ?vs = "\<lambda>e. if e = ''a1'' then 7 else (3::int)"
  let ?f = "example_filter ?vs"
  let ?x = "\<lparr>storageEndpoint = ''a1'', version = 7, objectNotFound = False\<rparr>"
  let ?st = "\<lparr>storagesKeys = [''a1'' \<mapsto> \<lparr>access = ''AK'', secret = ''SK''\<rparr>,
                             ''a2'' \<mapsto> \<lparr>access = ''AK'', secret = ''SK''\<rparr>],
            storagesWithObject =
              [?x, \<lparr>storageEndpoint = ''a2'', version = 3, objectNotFound = False\<rparr>],
            storagesWithoutObject = []\<rparr>"
  have out: "snd (filterEntry ?f [''s2'', ''s1''] (example_entry PUT 5))
     = [Task \<lparr>WALEntry = example_entry PUT 5, SourceClient = None, DestinationsClients = []\<rparr>,
        Task \<lparr>WALEntry = (example_entry DELETE 5)\<lparr>RecordProcessedHook := noopHook\<rparr>,
              SourceClient = None, DestinationsClients = []\<rparr>]"
    by (simp add: filter_defs example_defs)
  have fetch: "fetchVersionsFromStorages ?f (Record (example_entry PUT 5))
       (example_shard ''s1'' 1 [''a1'', ''a2'']) = Inr ?st"
    using example_fetch [of ?vs PUT 5] by simp
  have s: "?x \<in> set (storagesWithObject ?st)" by simp
  have v: "version ?x > ObjectVersion (Record (example_entry PUT 5))"
    by (simp add: example_entry_def)
  have n: "version ?x \<noteq> - 1" by simp
  show ?thesis
    using C3_newer_version_drops_entry [OF example_determineRing example_pick example_identity
        fetch s v n, of "[''s2'', ''s1'']"] out
    by simp
qed






section \<open>Properties of the consistency gate\<close>

lemmas gate_defs = ran_gate_def ConsistentShardsRing_DoRequest_def shouldLogRequest_def
  insertCalls_def awaitCompletion_def ring_answers_def List.map_filter_simps
  queriesACL_def test_request_def example_request_def isBucketPath_def Trim_def
  MethodGet_def MethodPut_def MethodDelete_def Let_def

text \<open>The rows of \<^verbatim>\<open>TestInsertingRecordsBasedOnTheRequest\<close> hold in the model of the gate.\<close>

lemma TestInsertingRecordsBasedOnTheRequest:
  "insertCalls (ran_gate Strong (test_request ''PUT'' ''/newBucket'' False)) = []"
  "insertCalls (ran_gate Weak (test_request ''PUT'' ''/newBucket'' False)) = []"
  "insertCalls (ran_gate None' (test_request ''PUT'' ''/newBucket'' False)) = []"
  "insertCalls (ran_gate Strong (test_request ''PUT'' ''/newBucket/objectg'' False)) \<noteq> []"
  "insertCalls (ran_gate Weak (test_request ''PUT'' ''/newBucket/objectg'' False)) \<noteq> []"
  "insertCalls (ran_gate None' (test_request ''PUT'' ''/newBucket/objectg'' False)) = []"
  "insertCalls (ran_gate Strong (test_request ''GET'' ''/newBucket/objectg'' False)) = []"
  "insertCalls (ran_gate Strong (test_request ''GET'' ''/newBucket/objectg'' True)) = []"
  "insertCalls (ran_gate Strong (test_request ''PUT'' ''/newBucket/objectg'' True)) \<noteq> []"
  by (simp_all add: gate_defs)

text \<open>
  The rows of \<^verbatim>\<open>TestRecordCompaction\<close>: the record is deleted from the log exactly when
  no error occurred while the request was processed.
\<close>

lemma TestRecordCompaction:
  "awaitCompletion record (compaction_request True) = [LogDelete 1]"
  "awaitCompletion record (compaction_request False) = []"
  by (simp_all add: awaitCompletion_def compaction_request_def test_request_def
      example_request_def MethodGet_def)

text \<open>
  The rows of \<^verbatim>\<open>TestReadRepair\<close>: for a GET, a record is inserted exactly when a
  version was lifted for the read repair.
\<close>

lemma TestReadRepair:
  "awaitCompletion record (read_repair_request None) = []"
  "awaitCompletion record (read_repair_request (Some 123))
     = [LogInsert (record\<lparr>Method' := PUT, ObjectVersion := 123\<rparr>)]"
  by (simp_all add: awaitCompletion_def read_repair_request_def test_request_def
      example_request_def MethodGet_def)

text \<open>
  The rows of \<^verbatim>\<open>TestConsistencyLevels\<close>: a failing insert fails the request under the
  level strong and is passed over under the level weak.
\<close>

lemma TestConsistencyLevels:
  "answer (ConsistentShardsRing_DoRequest (\<lambda>r. (None, Some (OtherError ''error'')))
      (ring_answers None) Strong False (Record (example_entry PUT 0))
      (test_request ''PUT'' ''/bucket/object'' False)) = Inl (OtherError ''error'')"
  "answer (ConsistentShardsRing_DoRequest (\<lambda>r. (None, None))
      (ring_answers None) Strong False (Record (example_entry PUT 0))
      (test_request ''PUT'' ''/bucket/object'' False)) = Inr (status_outcome 200)"
  "answer (ConsistentShardsRing_DoRequest (\<lambda>r. (None, Some (OtherError ''error'')))
      (ring_answers None) Weak False (Record (example_entry PUT 0))
      (test_request ''PUT'' ''/bucket/object'' False)) = Inr (status_outcome 200)"
  by (simp_all add: gate_defs)

lemma map_filter_append':
  "List.map_filter f (xs @ ys) = List.map_filter f xs @ List.map_filter f ys"
  by (simp add: List.map_filter_def)

lemma insertCalls_awaitCompletion:
  "List.map_filter (\<lambda>c. case c of LogInsert r \<Rightarrow> Some r | _ \<Rightarrow> None) (awaitCompletion record cr)
     = (if Method (Request cr) = MethodGet \<and> ReadRepairObjectVersion cr \<noteq> None
        then [record\<lparr>Method' := PUT, ObjectVersion := the (ReadRepairObjectVersion cr)\<rparr>]
        else [])"
  by (cases "DeleteMarker cr"; cases "ReadRepairObjectVersion cr")
     (simp_all add: awaitCompletion_def map_filter_append' List.map_filter_simps)

text \<open>
  C1, as amended. Before it dispatches a request the gate hands a record to the log's
  insert exactly when the consistency level is strong or weak and the request is a PUT on
  an object path, a PUT that asks for \<^verbatim>\<open>?acl\<close>, or a DELETE on an object path: it
  does so for no GET and for no request under the level none. When the request has
  completed the gate inserts one more record, the read-repair record, exactly when the
  request is a GET, the region has read repair and the shards ring lifted a version for
  it. These are all the inserts the gate makes.
\<close>

theorem C1_gate_inserts:
  "insertCalls (ConsistentShardsRing_DoRequest Insert ringDo level readRepair record req)
     = (if (level = Strong \<or> level = Weak)
           \<and> ((Method req = MethodPut \<and> \<not> isBucketPath (Path req))
              \<or> (Method req = MethodPut \<and> queriesACL req)
              \<or> (Method req = MethodDelete \<and> \<not> isBucketPath (Path req)))
        then [record] else [])
       @ (if Method req = MethodGet \<and> readRepair \<and> liftedVersion (ringDo req) \<noteq> None
          then [record\<lparr>Method' := PUT, ObjectVersion := the (liftedVersion (ringDo req))\<rparr>]
          else [])"
proof -
  have l: "shouldLogRequest level req \<longleftrightarrow>
      (level = Strong \<or> level = Weak)
       \<and> ((Method req = MethodPut \<and> \<not> isBucketPath (Path req))
          \<or> (Method req = MethodPut \<and> queriesACL req)
          \<or> (Method req = MethodDelete \<and> \<not> isBucketPath (Path req)))"
    by (cases level)
       (auto simp: shouldLogRequest_def MethodGet_def MethodPut_def MethodDelete_def)
  have g: "Method req = MethodGet \<Longrightarrow> \<not> shouldLogRequest level req"
    by (simp add: shouldLogRequest_def)
  obtain deleteMarker insertErr where i: "Insert record = (deleteMarker, insertErr)"
    by (cases "Insert record") auto
  show ?thesis
  proof (cases "shouldLogRequest level req")
    case True
    then have ng: "Method req \<noteq> MethodGet" using g by blast
    have "insertCalls (ConsistentShardsRing_DoRequest Insert ringDo level readRepair record req)
        = [record]"
      using True ng i
      by (cases insertErr)
         (simp_all add: ConsistentShardsRing_DoRequest_def insertCalls_def Let_def
            map_filter_append' insertCalls_awaitCompletion List.map_filter_simps)
    then show ?thesis using True ng l by simp
  next
    case False
    have "insertCalls (ConsistentShardsRing_DoRequest Insert ringDo level readRepair record req)
        = (if Method req = MethodGet \<and> readRepair \<and> liftedVersion (ringDo req) \<noteq> None
          then [record\<lparr>Method' := PUT, ObjectVersion := the (liftedVersion (ringDo req))\<rparr>]
          else [])"
      using False
      by (simp add: ConsistentShardsRing_DoRequest_def insertCalls_def Let_def
            map_filter_append' insertCalls_awaitCompletion List.map_filter_simps)
    then show ?thesis using False l by simp
  qed
qed

theorem C1_gate_inserts_witness:
  "insertCalls (ConsistentShardsRing_DoRequest (\<lambda>r. (Some 1, None)) (ring_answers None) Weak True
       (Record (example_entry PUT 0)) (test_request ''DELETE'' ''/newBucket/objectg'' False))
     = [Record (example_entry PUT 0)]
   \<and> insertCalls (ConsistentShardsRing_DoRequest (\<lambda>r. (Some 1, None)) (ring_answers None) None'
       True (Record (example_entry PUT 0)) (test_request ''PUT'' ''/newBucket/objectg'' True))
     = []
   \<and> insertCalls (ConsistentShardsRing_DoRequest (\<lambda>r. (Some 1, None)) (ring_answers (Some 7))
       Weak False (Record (example_entry PUT 0)) (test_request ''GET'' ''/newBucket/objectg'' False))
     = []"
  using C1_gate_inserts [of "\<lambda>r. (Some 1, None)" "ring_answers None" Weak True
      "Record (example_entry PUT 0)" "test_request ''DELETE'' ''/newBucket/objectg'' False"]
    C1_gate_inserts [of "\<lambda>r. (Some 1, None)" "ring_answers None" None' True
      "Record (example_entry PUT 0)" "test_request ''PUT'' ''/newBucket/objectg'' True"]
    C1_gate_inserts [of "\<lambda>r. (Some 1, None)" "ring_answers (Some 7)" Weak False
      "Record (example_entry PUT 0)" "test_request ''GET'' ''/newBucket/objectg'' False"]
  by (simp add: test_request_def example_request_def isBucketPath_def Trim_def
      MethodGet_def MethodPut_def MethodDelete_def ring_answers_def)

text \<open>
  The claim as stated fails for the GET of \<^verbatim>\<open>TestReadRepair\<close> for which the version 123
  was lifted: when the request has completed, the gate inserts the read-repair record. So
  it does under the level none in a region with read repair.
\<close>

theorem C1_read_repair_counterexample:
  "Method (Request (read_repair_request (Some 123))) = MethodGet
   \<and> awaitCompletion (Record (example_entry PUT 0)) (read_repair_request (Some 123))
       = [LogInsert ((Record (example_entry PUT 0))\<lparr>Method' := PUT, ObjectVersion := 123\<rparr>)]
   \<and> insertCalls (ConsistentShardsRing_DoRequest (\<lambda>r. (None, None)) (ring_answers (Some 123))
         None' True (Record (example_entry PUT 0)) (test_request ''GET'' ''/bukcet/obj'' False))
       = [(Record (example_entry PUT 0))\<lparr>Method' := PUT, ObjectVersion := 123\<rparr>]"
  by (simp add: gate_defs read_repair_request_def)

end
